theory Spec2Isabelle
  imports Main
begin

section \<open>JavaScript values used by the scheduler and the messenger\<close>

text \<open>
  The two classes under verification are \<^verbatim>\<open>Scheduler\<close> (src/utils/scheduler.js) and
  \<^verbatim>\<open>Messenger\<close> (src/utils/messenger.js). Both raise with \<^verbatim>\<open>new Error(message)\<close>
  only, and both read nothing but \<^verbatim>\<open>err.message\<close> of what they catch. So an exception is a
  value \<open>Error message\<close>, also when it comes from the Telegram client or from the caller's
  task, and a function that can raise returns \<open>error + 'a\<close> with \<open>Inl\<close> for the raised
  error.

  Numbers are modelled as exact integers. JavaScript numbers are doubles, which are exact
  on integers up to \<open>2 ^ 53\<close>. Interval values, hours and minutes are bounded by the checks
  of the code. A waiting time is parsed from a message of the client and has no bound in
  the code: beyond \<open>2 ^ 53\<close> \<^verbatim>\<open>parseInt\<close> rounds, and the model does not. So a statement
  below that gives a waiting time, or a wait in milliseconds, its value either runs on a
  fixed message or has the bound as a hypothesis. The other statements about runs depend on
  a waiting time only through its being 0 or not, which rounding does not change.
\<close>

datatype error = Error string

fun message :: "error \<Rightarrow> string" where
  "message (Error m) = m"

datatype level = Info | Warn | Err

type_synonym log_entry = "level \<times> string"

subsection \<open>Digits and decimal rendering\<close>

definition isDigit :: "char \<Rightarrow> bool" where
  \<comment> \<open>the regular-expression classes \<^verbatim>\<open>[0-9]\<close> and \<^verbatim>\<open>\d\<close>\<close>
  "isDigit c = (c \<in> set ''0123456789'')"

definition digitValue :: "char \<Rightarrow> nat" where
  "digitValue c = of_char c - 48"

definition digitChar :: "nat \<Rightarrow> char" where
  "digitChar d = ''0123456789'' ! d"

fun showNat :: "nat \<Rightarrow> string" where
  \<comment> \<open>a non-negative integer inside a template literal: its decimal digits\<close>
  "showNat n = (if n < 10 then [digitChar n] else showNat (n div 10) @ [digitChar (n mod 10)])"

declare showNat.simps [simp del]

definition showInt :: "int \<Rightarrow> string" where
  "showInt v = (if v < 0 then CHR ''-'' # showNat (nat (- v)) else showNat (nat v))"

definition decimal :: "string \<Rightarrow> nat" where
  \<comment> \<open>the value of a string of decimal digits; \<^verbatim>\<open>parseInt(s, 10)\<close> and \<^verbatim>\<open>Number(s)\<close>
      return it on such a string while it is at most \<open>2 ^ 53\<close>, and a double near it
      beyond\<close>
  "decimal s = foldl (\<lambda>a c. 10 * a + digitValue c) 0 s"

datatype jsnum = Num nat | NaN | Undefined

fun template :: "jsnum \<Rightarrow> string" where
  "template (Num n) = showNat n"
| "template NaN = ''NaN''"
| "template Undefined = ''undefined''"

definition Number :: "string \<Rightarrow> jsnum" where
  \<comment> \<open>\<^verbatim>\<open>Number(s)\<close> on the strings \<^verbatim>\<open>dailyTimeToCron\<close> hands to it. Strings with
      other characters are \<open>NaN\<close> here (signs, blanks, exponents and hexadecimal prefixes
      are not modelled: no such string passes the format check before the call).\<close>
  "Number s = (if list_all isDigit s then Num (decimal s) else NaN)"

fun split :: "char \<Rightarrow> string \<Rightarrow> string list" where
  \<comment> \<open>\<^verbatim>\<open>s.split(sep)\<close> for a one-character separator\<close>
  "split sep [] = [[]]"
| "split sep (c # cs) =
     (if c = sep then [] # split sep cs
      else (case split sep cs of p # ps \<Rightarrow> (c # p) # ps | [] \<Rightarrow> [[c]]))"

fun element :: "jsnum list \<Rightarrow> nat \<Rightarrow> jsnum" where
  \<comment> \<open>array destructuring: a missing position is \<^verbatim>\<open>undefined\<close>\<close>
  "element xs i = (if i < length xs then xs ! i else Undefined)"

section \<open>Scheduler: conversions to cron expressions\<close>

text \<open>
  \<^verbatim>\<open>intervalToCron(value, unit)\<close>, lines 57--80. \<open>value\<close> is an integer, \<open>unit\<close> any
  string; the \<^verbatim>\<open>switch\<close> compares the unit with the three literals in the source's order.
\<close>

definition intervalToCron :: "int \<Rightarrow> string \<Rightarrow> error + string" where
  "intervalToCron value unit =
     (if unit = ''minutes'' then
        (if value < 1 \<or> value > 59
         then Inl (Error ''Invalid minute interval. Must be between 1 and 59.'')
         else Inr (''*/'' @ showInt value @ '' * * * *''))
      else if unit = ''hours'' then
        (if value < 1 \<or> value > 23
         then Inl (Error ''Invalid hour interval. Must be between 1 and 23.'')
         else Inr (''0 */'' @ showInt value @ '' * * *''))
      else if unit = ''days'' then
        (if value < 1 \<or> value > 30
         then Inl (Error ''Invalid day interval. Must be between 1 and 30.'')
         else Inr (''0 0 */'' @ showInt value @ '' * *''))
      else Inl (Error (''Unsupported interval unit: '' @ unit)))"

text \<open>
  \<^verbatim>\<open>dailyTimeToCron(time)\<close>, lines 87--98. The regular expression is
  \<^verbatim>\<open>/^([01]?[0-9]|2[0-3]):([0-5][0-9])$/\<close>: anchored at both ends, a first group for the
  hour, a colon, a second group for the minute. Neither group can match a colon, so the
  hour group is matched against the text before the first colon and the minute group
  against the text after it.
\<close>

definition hourGroup :: "string \<Rightarrow> bool" where
  \<comment> \<open>\<^verbatim>\<open>([01]?[0-9]|2[0-3])\<close>\<close>
  "hourGroup h =
     (case h of
        [d] \<Rightarrow> isDigit d
      | [a, d] \<Rightarrow> (a \<in> set ''01'' \<and> isDigit d) \<or> (a = CHR ''2'' \<and> d \<in> set ''0123'')
      | _ \<Rightarrow> False)"

definition minuteGroup :: "string \<Rightarrow> bool" where
  \<comment> \<open>\<^verbatim>\<open>([0-5][0-9])\<close>\<close>
  "minuteGroup m =
     (case m of
        [a, d] \<Rightarrow> a \<in> set ''012345'' \<and> isDigit d
      | _ \<Rightarrow> False)"

definition timeRegex_test :: "string \<Rightarrow> bool" where
  "timeRegex_test time =
     (hourGroup (takeWhile (\<lambda>c. c \<noteq> CHR '':'') time) \<and>
      (case dropWhile (\<lambda>c. c \<noteq> CHR '':'') time of
         [] \<Rightarrow> False
       | colon # rest \<Rightarrow> minuteGroup rest))"

definition dailyTimeToCron :: "string \<Rightarrow> error + string" where
  "dailyTimeToCron time =
     (if \<not> timeRegex_test time
      then Inl (Error ''Invalid time format. Must be in 24-hour format (HH:MM).'')
      else
        (let parts = map Number (split (CHR '':'') time);
             hours = element parts 0;
             minutes = element parts 1
         in Inr (template minutes @ '' '' @ template hours @ '' * * *'')))"

section \<open>Scheduler: triggers and the owned list\<close>

text \<open>
  The scheduler object holds \<^verbatim>\<open>this.scheduledTasks\<close>, an array of the task objects that
  \<^verbatim>\<open>cron.schedule\<close> returned. Those objects live in node-cron, outside the array, and
  \<^verbatim>\<open>stopAllTasks\<close> mutates them through the references before it drops the array. So the
  model keeps a store of triggers (\<open>cronTasks\<close>, addressed by position) beside the list of
  references \<open>scheduledTasks\<close>.

  node-cron itself is not part of the repository. Of it the model keeps what the code uses:
  \<^verbatim>\<open>cron.validate\<close> is a parameter \<open>validate\<close>; \<^verbatim>\<open>cron.schedule\<close> creates a new running
  trigger holding the expression and the callback; \<^verbatim>\<open>task.stop()\<close> marks a trigger as not
  running; a trigger fires (\<open>fire\<close>) only while it is running. The \<^verbatim>\<open>options\<close> argument is
  handed to node-cron untouched and is left out.

  A task is the caller's zero-argument function. It acts on the caller's own state \<open>'w\<close>
  and either completes or raises an error.
\<close>

type_synonym 'w task = "'w \<Rightarrow> (error + unit) \<times> 'w"

record 'w trigger =
  expression :: string
  callbackTask :: "'w task"
  running :: bool

record 'w scheduler =
  scheduledTasks :: "nat list"
  cronTasks :: "'w trigger list"
  logger :: "log_entry list"
  app :: 'w

definition logTo :: "level \<Rightarrow> string \<Rightarrow> 'w scheduler \<Rightarrow> 'w scheduler" where
  "logTo l m s = s\<lparr>logger := logger s @ [(l, m)]\<rparr>"

definition callback :: "string \<Rightarrow> 'w task \<Rightarrow> 'w scheduler \<Rightarrow> (error + unit) \<times> 'w scheduler" where
  \<comment> \<open>the function handed to \<^verbatim>\<open>cron.schedule\<close>, lines 34--41\<close>
  "callback cronExpression task s =
     (let s1 = logTo Info (''Running scheduled task: '' @ cronExpression) s in
      case task (app s1) of
        (Inr u, w) \<Rightarrow> (Inr (), s1\<lparr>app := w\<rparr>)
      | (Inl err, w) \<Rightarrow>
          (Inr (), logTo Err (''Error in scheduled task: '' @ message err) (s1\<lparr>app := w\<rparr>)))"

definition fire :: "nat \<Rightarrow> 'w scheduler \<Rightarrow> ((error + unit) \<times> 'w scheduler) option" where
  \<comment> \<open>node-cron reaching an instant of trigger \<open>h\<close>: a running trigger runs its callback,
      anything else does not fire (\<open>None\<close>)\<close>
  "fire h s =
     (if h < length (cronTasks s) \<and> running (cronTasks s ! h)
      then Some (callback (expression (cronTasks s ! h)) (callbackTask (cronTasks s ! h)) s)
      else None)"

definition scheduleTask ::
  "(string \<Rightarrow> bool) \<Rightarrow> string \<Rightarrow> 'w task \<Rightarrow> 'w scheduler \<Rightarrow> (error + nat) \<times> 'w scheduler" where
  \<comment> \<open>lines 24--49; the handle returned is the position of the new trigger in the store\<close>
  "scheduleTask validate cronExpression task s =
     (if \<not> validate cronExpression then
        (let err = Error (''Invalid cron expression: '' @ cronExpression) in
         (Inl err, logTo Err (''Failed to schedule task: '' @ message err) s))
      else
        (let s1 = logTo Info (''Scheduling task with cron expression: '' @ cronExpression) s;
             scheduledTask = length (cronTasks s1);
             s2 = s1\<lparr>cronTasks := cronTasks s1 @
                    [\<lparr>expression = cronExpression, callbackTask = task, running = True\<rparr>]\<rparr>;
             s3 = s2\<lparr>scheduledTasks := scheduledTasks s2 @ [scheduledTask]\<rparr>
         in (Inr scheduledTask, s3)))"

fun scheduleEach ::
  "(string \<Rightarrow> bool) \<Rightarrow> string list \<Rightarrow> 'w task \<Rightarrow> nat list \<Rightarrow> 'w scheduler
     \<Rightarrow> (error + nat list) \<times> 'w scheduler" where
  \<comment> \<open>the \<^verbatim>\<open>for (const time of times)\<close> loop, lines 114--119; \<open>acc\<close> is the local array
      \<^verbatim>\<open>scheduledTasks\<close>\<close>
  "scheduleEach validate [] task acc s = (Inr acc, s)"
| "scheduleEach validate (time # rest) task acc s =
     (case dailyTimeToCron time of
        Inl err \<Rightarrow> (Inl err, s)
      | Inr cronExpression \<Rightarrow>
          (let s1 = logTo Info (''Scheduling task for daily time: '' @ time @
                                 '' ('' @ cronExpression @ '')'') s in
           case scheduleTask validate cronExpression task s1 of
             (Inl err, s2) \<Rightarrow> (Inl err, s2)
           | (Inr scheduledTask, s2) \<Rightarrow>
               scheduleEach validate rest task (acc @ [scheduledTask]) s2))"

definition scheduleMultipleDailyTimes ::
  "(string \<Rightarrow> bool) \<Rightarrow> string list \<Rightarrow> 'w task \<Rightarrow> 'w scheduler
     \<Rightarrow> (error + nat list) \<times> 'w scheduler" where
  \<comment> \<open>lines 107--122; \<open>timeList\<close> is the argument \<^verbatim>\<open>times\<close>, an array by its type, so
      only emptiness is left of the first check\<close>
  "scheduleMultipleDailyTimes validate timeList task s =
     (if timeList = []
      then (Inl (Error ''Times must be a non-empty array of time strings''), s)
      else scheduleEach validate timeList task [] s)"

definition stop :: "nat \<Rightarrow> 'w trigger list \<Rightarrow> 'w trigger list" where
  \<comment> \<open>\<^verbatim>\<open>task.stop()\<close> through the reference \<open>h\<close>\<close>
  "stop h ts = (if h < length ts then ts[h := (ts ! h)\<lparr>running := False\<rparr>] else ts)"

definition stopAllTasks :: "'w scheduler \<Rightarrow> 'w scheduler" where
  \<comment> \<open>lines 127--131\<close>
  "stopAllTasks s =
     (let s1 = logTo Info (''Stopping '' @ showNat (length (scheduledTasks s)) @
                            '' scheduled tasks'') s;
          s2 = s1\<lparr>cronTasks := foldl (\<lambda>ts h. stop h ts) (cronTasks s1) (scheduledTasks s1)\<rparr>
      in s2\<lparr>scheduledTasks := []\<rparr>)"

section \<open>Messenger\<close>

text \<open>
  A target is an object with a \<^verbatim>\<open>type\<close> and an optional \<^verbatim>\<open>id\<close> (a number) and
  \<^verbatim>\<open>username\<close> (a string), as in the \<^verbatim>\<open>targets\<close> array of the configuration. The
  conditions \<^verbatim>\<open>target.id\<close> and \<^verbatim>\<open>target.username\<close> are JavaScript truthiness: a missing
  field, the number 0 and the empty string are all falsy.

  The Telegram client, the system clock and the timer are outside the repository:
  \<^item> \<^verbatim>\<open>client.sendMessage(entity, {message})\<close> is a parameter \<open>send\<close>, a function of the
    client's state that either resolves with the identifier of the message (\<open>Inr\<close>) or
    rejects with an error (\<open>Inl\<close>);
  \<^item> \<^verbatim>\<open>new Date().toISOString()\<close> is a parameter \<open>now\<close>, read against what has happened
    so far;
  \<^item> \<^verbatim>\<open>await new Promise(resolve => setTimeout(resolve, ms))\<close> is the event
    \<open>SetTimeout ms\<close>, holding the delay the code asks the timer for.
  Every call of the client, every request to the timer and every line handed to the logger
  is appended to \<open>events\<close> in the order in which the code performs it.
\<close>

record target =
  target_type :: string
  target_id :: "int option"
  target_username :: "string option"

datatype entity = ChatId int | Username string

record outcome =
  success :: bool
  target :: target
  messageId :: "nat option"
  error :: "string option"
  waitTime :: "nat option"
  timestamp :: string

datatype event = Log level string | Send entity string | SetTimeout nat

record 'c world =
  client :: 'c
  events :: "event list"

type_synonym 'c transport = "'c \<Rightarrow> entity \<Rightarrow> string \<Rightarrow> (error + nat) \<times> 'c"

type_synonym clock = "event list \<Rightarrow> string"

definition emit :: "event \<Rightarrow> 'c world \<Rightarrow> 'c world" where
  "emit e w = w\<lparr>events := events w @ [e]\<rparr>"

definition truthyId :: "int option \<Rightarrow> bool" where
  "truthyId i = (case i of None \<Rightarrow> False | Some n \<Rightarrow> n \<noteq> 0)"

definition truthyName :: "string option \<Rightarrow> bool" where
  "truthyName u = (case u of None \<Rightarrow> False | Some n \<Rightarrow> n \<noteq> [])"

definition truthyNum :: "nat option \<Rightarrow> bool" where
  "truthyNum x = (case x of None \<Rightarrow> False | Some n \<Rightarrow> n \<noteq> 0)"

fun startsWith :: "string \<Rightarrow> string \<Rightarrow> bool" where
  "startsWith s [] = True"
| "startsWith [] (p # ps) = False"
| "startsWith (c # cs) (p # ps) = (c = p \<and> startsWith cs ps)"

fun str_includes :: "string \<Rightarrow> string \<Rightarrow> bool" where
  \<comment> \<open>\<^verbatim>\<open>s.includes(part)\<close>\<close>
  "str_includes [] part = (part = [])"
| "str_includes (c # cs) part = (startsWith (c # cs) part \<or> str_includes cs part)"

fun matchFloodWait :: "string \<Rightarrow> string option" where
  \<comment> \<open>\<^verbatim>\<open>errorMessage.match(/FLOOD_WAIT_(\d+)/)\<close>: the first group of the leftmost match,
      which takes every digit that follows the prefix; \<open>None\<close> when nothing matches\<close>
  "matchFloodWait [] = None"
| "matchFloodWait (c # cs) =
     (let digits = takeWhile isDigit (drop 11 (c # cs)) in
      if startsWith (c # cs) ''FLOOD_WAIT_'' \<and> digits \<noteq> [] then Some digits
      else matchFloodWait cs)"

definition extractFloodWaitTime :: "string \<Rightarrow> nat" where
  \<comment> \<open>\<^verbatim>\<open>_extractFloodWaitTime\<close>, lines 107--113; the result is that of the code while the
      digits read at most \<open>2 ^ 53\<close> (see \<open>decimal\<close>), and is 0 exactly when the code's is\<close>
  "extractFloodWaitTime errorMessage =
     (case matchFloodWait errorMessage of
        Some digits \<Rightarrow> if digits \<noteq> [] then decimal digits else 60
      | None \<Rightarrow> 60)"

definition describe :: "target \<Rightarrow> string" where
  \<comment> \<open>\<^verbatim>\<open>${target.type} ${target.username || target.id}\<close> in the log lines\<close>
  "describe t =
     target_type t @ '' '' @
     (if truthyName (target_username t) then the (target_username t)
      else (case target_id t of None \<Rightarrow> ''undefined'' | Some i \<Rightarrow> showInt i))"

definition chooseEntity :: "target \<Rightarrow> error + entity" where
  \<comment> \<open>lines 26--32\<close>
  "chooseEntity t =
     (if target_type t = ''chat'' \<and> truthyId (target_id t) then Inr (ChatId (the (target_id t)))
      else if truthyName (target_username t) then Inr (Username (the (target_username t)))
      else Inl (Error ''Invalid target configuration''))"

definition sendMessage_try ::
  "'c transport \<Rightarrow> clock \<Rightarrow> target \<Rightarrow> string \<Rightarrow> 'c world \<Rightarrow> (error + outcome) \<times> 'c world" where
  \<comment> \<open>the \<^verbatim>\<open>try\<close> block of \<^verbatim>\<open>sendMessage\<close>, lines 23--42; \<open>Inl\<close> is what reaches \<^verbatim>\<open>catch\<close>\<close>
  "sendMessage_try send now t msg w =
     (case chooseEntity t of
        Inl err \<Rightarrow> (Inl err, w)
      | Inr entity \<Rightarrow>
          (case send (client w) entity msg of
             (Inl err, c) \<Rightarrow> (Inl err, emit (Send entity msg) (w\<lparr>client := c\<rparr>))
           | (Inr result_id, c) \<Rightarrow>
               (let w1 = emit (Send entity msg) (w\<lparr>client := c\<rparr>);
                    w2 = emit (Log Info (''Message sent successfully to '' @ describe t)) w1
                in (Inr \<lparr>success = True, target = t, messageId = Some result_id,
                         error = None, waitTime = None, timestamp = now (events w2)\<rparr>, w2))))"

definition sendMessage_catch ::
  "clock \<Rightarrow> target \<Rightarrow> error \<Rightarrow> 'c world \<Rightarrow> (error + outcome) \<times> 'c world" where
  \<comment> \<open>the \<^verbatim>\<open>catch (err)\<close> block, lines 43--64\<close>
  "sendMessage_catch now t err w =
     (if str_includes (message err) ''FLOOD_WAIT'' then
        (let wt = extractFloodWaitTime (message err);
             w1 = emit (Log Warn (''Rate limited! Need to wait '' @ showNat wt @
                                   '' seconds before sending to '' @ describe t)) w
         in (Inr \<lparr>success = False, target = t, messageId = None,
                  error = Some ''RATE_LIMITED'', waitTime = Some wt,
                  timestamp = now (events w1)\<rparr>, w1))
      else
        (let w1 = emit (Log Err (''Failed to send message to '' @ describe t @ '': '' @
                                  message err)) w
         in (Inr \<lparr>success = False, target = t, messageId = None,
                  error = Some (message err), waitTime = None,
                  timestamp = now (events w1)\<rparr>, w1)))"

definition sendMessage ::
  "'c transport \<Rightarrow> clock \<Rightarrow> target \<Rightarrow> string \<Rightarrow> 'c world \<Rightarrow> (error + outcome) \<times> 'c world" where
  "sendMessage send now t msg w =
     (case sendMessage_try send now t msg w of
        (Inr result, w1) \<Rightarrow> (Inr result, w1)
      | (Inl err, w1) \<Rightarrow> sendMessage_catch now t err w1)"

definition pause :: "outcome \<Rightarrow> nat \<Rightarrow> 'c world \<Rightarrow> 'c world" where
  \<comment> \<open>the wait at the end of the loop body, lines 84--91\<close>
  "pause result delayBetweenMessages w =
     (if error result = Some ''RATE_LIMITED'' \<and> truthyNum (waitTime result) then
        (let waitMs = the (waitTime result) * 1000 + 1000;
             w1 = emit (Log Info (''Waiting '' @ showNat (waitMs div 1000) @
                                   '' seconds due to rate limiting'')) w
         in emit (SetTimeout waitMs) w1)
      else emit (SetTimeout delayBetweenMessages) w)"

fun sendEach ::
  "'c transport \<Rightarrow> clock \<Rightarrow> target list \<Rightarrow> string \<Rightarrow> nat \<Rightarrow> outcome list \<Rightarrow> 'c world
     \<Rightarrow> (error + outcome list) \<times> 'c world" where
  \<comment> \<open>the \<^verbatim>\<open>for (const target of targets)\<close> loop, lines 79--92; an error out of
      \<^verbatim>\<open>await this.sendMessage\<close> would leave the loop\<close>
  "sendEach send now [] msg delayBetweenMessages results w = (Inr results, w)"
| "sendEach send now (t # ts) msg delayBetweenMessages results w =
     (case sendMessage send now t msg w of
        (Inl err, w1) \<Rightarrow> (Inl err, w1)
      | (Inr result, w1) \<Rightarrow>
          sendEach send now ts msg delayBetweenMessages (results @ [result])
            (pause result delayBetweenMessages w1))"

definition sendMessagesToAllTargets ::
  "'c transport \<Rightarrow> clock \<Rightarrow> target list \<Rightarrow> string \<Rightarrow> nat \<Rightarrow> 'c world
     \<Rightarrow> (error + outcome list) \<times> 'c world" where
  \<comment> \<open>lines 74--99\<close>
  "sendMessagesToAllTargets send now targets msg delayBetweenMessages w =
     (let w1 = emit (Log Info (''Starting to send messages to '' @
                                showNat (length targets) @ '' targets'')) w in
      case sendEach send now targets msg delayBetweenMessages [] w1 of
        (Inl err, w2) \<Rightarrow> (Inl err, w2)
      | (Inr results, w2) \<Rightarrow>
          (let successCount = length (filter success results);
               w3 = emit (Log Info (''Completed sending messages. Success: '' @
                                     showNat successCount @ ''/'' @
                                     showNat (length targets))) w2
           in (Inr results, w3)))"

fun sends :: "event list \<Rightarrow> (entity \<times> string) list" where
  \<comment> \<open>the calls of the client in a trace, in order\<close>
  "sends [] = []"
| "sends (Send e m # es) = (e, m) # sends es"
| "sends (x # es) = sends es"

fun timeouts :: "event list \<Rightarrow> nat list" where
  \<comment> \<open>the delays asked of the timer in a trace, in order\<close>
  "timeouts [] = []"
| "timeouts (SetTimeout ms # es) = ms # timeouts es"
| "timeouts (x # es) = timeouts es"

definition attempted :: "string \<Rightarrow> target \<Rightarrow> (entity \<times> string) list" where
  \<comment> \<open>the call of the client that a target gives rise to: none when no entity can be
      chosen for it\<close>
  "attempted msg t = (case chooseEntity t of Inr e \<Rightarrow> [(e, msg)] | Inl err \<Rightarrow> [])"

text \<open>
  Three views of a run, used to state what a run over a list of targets does.
  \<^item> \<open>skeleton\<close> keeps of a trace the calls of the client and the waits, in their order, and
    forgets the log lines and the length of each wait. \<open>turn\<close> is what one target
    contributes: its one call of the client, when an entity can be chosen for it, and then
    its one wait.
  \<^item> \<open>clientAfter\<close> is the state of the client after the targets of a list have been served
    in order: each target with an entity is one call of \<open>send\<close> on the state that the
    previous call left.
  \<^item> \<open>reported\<close> says that an outcome is the record of what the client answered for a target
    from a given state: success with the identifier the client resolved with, or failure
    with the error of the rejection (\<^verbatim>\<open>RATE_LIMITED\<close> with some waiting time when the message
    contains \<^verbatim>\<open>FLOOD_WAIT\<close>), or the failure of a target for which no entity can be chosen.
\<close>

datatype step = Attempt entity string | Wait

fun skeleton :: "event list \<Rightarrow> step list" where
  "skeleton [] = []"
| "skeleton (Send e m # es) = Attempt e m # skeleton es"
| "skeleton (SetTimeout ms # es) = Wait # skeleton es"
| "skeleton (Log l m # es) = skeleton es"

definition turn :: "string \<Rightarrow> target \<Rightarrow> step list" where
  "turn msg t = (case chooseEntity t of Inr e \<Rightarrow> [Attempt e msg, Wait] | Inl err \<Rightarrow> [Wait])"

definition clientStep :: "'c transport \<Rightarrow> string \<Rightarrow> 'c \<Rightarrow> target \<Rightarrow> 'c" where
  "clientStep send msg c t =
     (case chooseEntity t of Inr e \<Rightarrow> snd (send c e msg) | Inl err \<Rightarrow> c)"

definition clientAfter :: "'c transport \<Rightarrow> string \<Rightarrow> 'c \<Rightarrow> target list \<Rightarrow> 'c" where
  "clientAfter send msg c ts = foldl (clientStep send msg) c ts"

definition reported :: "'c transport \<Rightarrow> string \<Rightarrow> 'c \<Rightarrow> target \<Rightarrow> outcome \<Rightarrow> bool" where
  "reported send msg c t r =
     (target r = t \<and>
      (case chooseEntity t of
         Inl err \<Rightarrow>
           \<not> success r \<and> messageId r = None \<and> error r = Some (message err) \<and>
           waitTime r = None
       | Inr e \<Rightarrow>
           (case fst (send c e msg) of
              Inr result_id \<Rightarrow>
                success r \<and> messageId r = Some result_id \<and> error r = None \<and> waitTime r = None
            | Inl err \<Rightarrow>
                \<not> success r \<and> messageId r = None \<and>
                (if str_includes (message err) ''FLOOD_WAIT''
                 then error r = Some ''RATE_LIMITED'' \<and> waitTime r \<noteq> None
                 else error r = Some (message err) \<and> waitTime r = None))))"

section \<open>The accepted times of day, stated apart from the code\<close>

text \<open>
  \<open>spec_strict_HHMM\<close> follows the specification's words: a zero-padded \<^verbatim>\<open>HH:MM\<close> between
  00:00 and 23:59, read as an hour and a minute. \<open>accepted_time\<close> adds the strings that are
  such a time once a zero is put in front of them, that is \<^verbatim>\<open>H:MM\<close> with a one-digit hour.
  Both are compared with \<open>dailyTimeToCron\<close> below.
\<close>

definition spec_strict_HHMM :: "string \<Rightarrow> (nat \<times> nat) option" where
  "spec_strict_HHMM t =
     (case t of
        [a, b, c, d, e] \<Rightarrow>
          if isDigit a \<and> isDigit b \<and> c = CHR '':'' \<and> isDigit d \<and> isDigit e \<and>
             decimal [a, b] < 24 \<and> decimal [d, e] < 60
          then Some (decimal [a, b], decimal [d, e]) else None
      | _ \<Rightarrow> None)"

definition accepted_time :: "string \<Rightarrow> (nat \<times> nat) option" where
  "accepted_time t =
     (case spec_strict_HHMM t of
        Some hm \<Rightarrow> Some hm
      | None \<Rightarrow> spec_strict_HHMM (CHR ''0'' # t))"

section \<open>Concrete collaborators for the examples\<close>

text \<open>
  The examples below run the functions on concrete inputs. They use a client that answers
  from a script (its state is the list of answers still to give, and it resolves with
  identifier 0 once the script is used up), a clock that always reads the same instant, a
  validator in the place of \<^verbatim>\<open>cron.validate\<close> that accepts every expression it is asked
  about, and tasks that always raise or always complete. The targets are those of the
  README's configuration, and one with neither an id nor a username.
\<close>

definition scriptedClient :: "(error + nat) list transport" where
  "scriptedClient script entity msg =
     (case script of [] \<Rightarrow> (Inr 0, []) | answer # rest \<Rightarrow> (answer, rest))"

definition fixedClock :: clock where
  "fixedClock es = ''2024-01-01T00:00:00.000Z''"

definition acceptAll :: "string \<Rightarrow> bool" where
  "acceptAll cronExpression = True"

definition raisingTask :: "nat task" where
  "raisingTask n = (Inl (Error ''boom''), Suc n)"

definition countingTask :: "nat task" where
  "countingTask n = (Inr (), Suc n)"

definition groupTarget :: target where
  "groupTarget = \<lparr>target_type = ''group'', target_id = None,
                  target_username = Some ''group_username''\<rparr>"

definition chatTarget :: target where
  "chatTarget = \<lparr>target_type = ''chat'', target_id = Some 123456789, target_username = None\<rparr>"

definition emptyTarget :: target where
  "emptyTarget = \<lparr>target_type = ''group'', target_id = None, target_username = None\<rparr>"

definition emptyScheduler :: "nat scheduler" where
  "emptyScheduler = \<lparr>scheduledTasks = [], cronTasks = [], logger = [], app = 0\<rparr>"

definition freshWorld :: "(error + nat) list \<Rightarrow> (error + nat) list world" where
  "freshWorld script = \<lparr>client = script, events = []\<rparr>"

definition twoTriggers :: "nat scheduler" where
  "twoTriggers =
     snd (scheduleMultipleDailyTimes acceptAll [''09:00'', ''21:30''] countingTask emptyScheduler)"

definition raisingScheduler :: "nat scheduler" where
  "raisingScheduler = snd (scheduleTask acceptAll ''*/15 * * * *'' raisingTask emptyScheduler)"

definition floodZeroRun ::
  "(error + outcome list) \<times> (error + nat) list world" where
  "floodZeroRun =
     sendMessagesToAllTargets scriptedClient fixedClock [groupTarget, chatTarget] ''hi'' 100
       (freshWorld [Inl (Error ''FLOOD_WAIT_0''), Inr 7])"

section \<open>Interval conversion\<close>

lemma showInt_nonneg: "0 \<le> v \<Longrightarrow> showInt v = showNat (nat v)"
  by (simp add: showInt_def)

text \<open>
  \<open>showNat\<close> is the decimal rendering: its result consists of digits and reads back as the
  number.
\<close>

lemma decimal_snoc: "decimal (s @ [c]) = 10 * decimal s + digitValue c"
  by (simp add: decimal_def)

lemma digitValue_digitChar: "d < 10 \<Longrightarrow> digitValue (digitChar d) = d"
proof -
  assume "d < 10"
  then have "d \<in> {0, 1, 2, 3, 4, 5, 6, 7, 8, 9}" by auto
  then show ?thesis
    by (auto simp: digitValue_def digitChar_def)
qed

lemma isDigit_digitChar: "d < 10 \<Longrightarrow> isDigit (digitChar d)"
proof -
  assume "d < 10"
  then have "d \<in> {0, 1, 2, 3, 4, 5, 6, 7, 8, 9}" by auto
  then show ?thesis
    by (auto simp: isDigit_def digitChar_def)
qed

lemma showNat_decimal: "list_all isDigit (showNat n) \<and> decimal (showNat n) = n"
proof (induction n rule: showNat.induct)
  case (1 n)
  show ?case
  proof (cases "n < 10")
    case True
    then show ?thesis
      by (simp add: showNat.simps [of n] decimal_def digitValue_digitChar isDigit_digitChar)
  next
    case False
    with 1 have "list_all isDigit (showNat (n div 10))" "decimal (showNat (n div 10)) = n div 10"
      by simp_all
    with False show ?thesis
      by (simp add: showNat.simps [of n] decimal_snoc digitValue_digitChar isDigit_digitChar)
  qed
qed

text \<open>
  C5. For every integer \<open>v\<close>, \<open>intervalToCron\<close> returns \<^verbatim>\<open>*/v * * * *\<close> for minutes with
  \<open>1 \<le> v \<le> 59\<close>, \<^verbatim>\<open>0 */v * * *\<close> for hours with \<open>1 \<le> v \<le> 23\<close> and \<^verbatim>\<open>0 0 */v * *\<close> for
  days with \<open>1 \<le> v \<le> 30\<close>, where \<open>v\<close> is written in decimal. It raises an error when \<open>v\<close> is
  outside the range of the unit, and when the unit is none of the three.
\<close>

theorem intervalToCron_ranges:
  "(1 \<le> v \<and> v \<le> 59 \<longrightarrow>
      intervalToCron v ''minutes'' = Inr (''*/'' @ showNat (nat v) @ '' * * * *'')) \<and>
   (1 \<le> v \<and> v \<le> 23 \<longrightarrow>
      intervalToCron v ''hours'' = Inr (''0 */'' @ showNat (nat v) @ '' * * *'')) \<and>
   (1 \<le> v \<and> v \<le> 30 \<longrightarrow>
      intervalToCron v ''days'' = Inr (''0 0 */'' @ showNat (nat v) @ '' * *'')) \<and>
   (v < 1 \<or> 59 < v \<longrightarrow>
      intervalToCron v ''minutes'' =
        Inl (Error ''Invalid minute interval. Must be between 1 and 59.'')) \<and>
   (v < 1 \<or> 23 < v \<longrightarrow>
      intervalToCron v ''hours'' =
        Inl (Error ''Invalid hour interval. Must be between 1 and 23.'')) \<and>
   (v < 1 \<or> 30 < v \<longrightarrow>
      intervalToCron v ''days'' =
        Inl (Error ''Invalid day interval. Must be between 1 and 30.'')) \<and>
   (u \<noteq> ''minutes'' \<and> u \<noteq> ''hours'' \<and> u \<noteq> ''days'' \<longrightarrow>
      intervalToCron v u = Inl (Error (''Unsupported interval unit: '' @ u)))"
  by (simp add: intervalToCron_def showInt_nonneg)

theorem intervalToCron_ranges_witness:
  "intervalToCron 15 ''minutes'' = Inr ''*/15 * * * *'' \<and>
   intervalToCron 23 ''hours'' = Inr ''0 */23 * * *'' \<and>
   intervalToCron 30 ''days'' = Inr ''0 0 */30 * *'' \<and>
   intervalToCron 0 ''minutes'' =
     Inl (Error ''Invalid minute interval. Must be between 1 and 59.'') \<and>
   intervalToCron 60 ''minutes'' =
     Inl (Error ''Invalid minute interval. Must be between 1 and 59.'') \<and>
   intervalToCron 24 ''hours'' =
     Inl (Error ''Invalid hour interval. Must be between 1 and 23.'') \<and>
   intervalToCron 31 ''days'' =
     Inl (Error ''Invalid day interval. Must be between 1 and 30.'') \<and>
   intervalToCron 5 ''weeks'' = Inl (Error ''Unsupported interval unit: weeks'')"
  using intervalToCron_ranges [of 15 "''weeks''"] intervalToCron_ranges [of 23 "''weeks''"]
    intervalToCron_ranges [of 30 "''weeks''"] intervalToCron_ranges [of 0 "''weeks''"]
    intervalToCron_ranges [of 60 "''weeks''"] intervalToCron_ranges [of 24 "''weeks''"]
    intervalToCron_ranges [of 31 "''weeks''"] intervalToCron_ranges [of 5 "''weeks''"]
  by (simp add: showNat.simps digitChar_def)

section \<open>Stopping all triggers\<close>

lemma length_stop: "length (stop h ts) = length ts"
  by (simp add: stop_def)

lemma stop_keeps_stopped:
  "k < length ts \<Longrightarrow> \<not> running (ts ! k) \<Longrightarrow> \<not> running (stop h ts ! k)"
  by (simp add: stop_def nth_list_update)

lemma stop_stops: "h < length ts \<Longrightarrow> \<not> running (stop h ts ! h)"
  by (simp add: stop_def)

lemma length_stop_all: "length (foldl (\<lambda>ts h. stop h ts) ts hs) = length ts"
  by (induction hs arbitrary: ts) (simp_all add: length_stop)

lemma stop_all_keeps_stopped:
  "k < length ts \<Longrightarrow> \<not> running (ts ! k) \<Longrightarrow>
   \<not> running (foldl (\<lambda>ts h. stop h ts) ts hs ! k)"
  by (induction hs arbitrary: ts) (simp_all add: length_stop stop_keeps_stopped)

lemma stop_all_stops:
  "h \<in> set hs \<Longrightarrow> h < length ts \<Longrightarrow> \<not> running (foldl (\<lambda>ts h. stop h ts) ts hs ! h)"
proof (induction hs arbitrary: ts)
  case Nil
  then show ?case by simp
next
  case (Cons x xs)
  show ?case
  proof (cases "h = x")
    case True
    with Cons.prems show ?thesis
      by (simp add: stop_all_keeps_stopped length_stop stop_stops)
  next
    case False
    with Cons show ?thesis by (simp add: length_stop)
  qed
qed

text \<open>
  C8. \<open>stopAllTasks\<close> stops every trigger that the scheduler owns and leaves the owned list
  empty. On a scheduler that owns nothing it changes nothing but the log, to which it adds
  its one line; so a second call in a row stops nothing more and the owned list stays
  empty.
\<close>

theorem stopAllTasks_clears:
  "scheduledTasks (stopAllTasks s) = [] \<and>
   length (cronTasks (stopAllTasks s)) = length (cronTasks s) \<and>
   (\<forall>h \<in> set (scheduledTasks s).
      h < length (cronTasks s) \<longrightarrow> \<not> running (cronTasks (stopAllTasks s) ! h)) \<and>
   (scheduledTasks s = [] \<longrightarrow>
      stopAllTasks s = s\<lparr>logger := logger s @ [(Info, ''Stopping 0 scheduled tasks'')]\<rparr>) \<and>
   scheduledTasks (stopAllTasks (stopAllTasks s)) = [] \<and>
   cronTasks (stopAllTasks (stopAllTasks s)) = cronTasks (stopAllTasks s)"
  by (simp add: stopAllTasks_def logTo_def Let_def length_stop_all stop_all_stops
      showNat.simps digitChar_def)

lemmas scheduling_defs = scheduleMultipleDailyTimes_def scheduleTask_def dailyTimeToCron_def
  timeRegex_test_def hourGroup_def minuteGroup_def isDigit_def Number_def decimal_def
  digitValue_def showNat.simps digitChar_def acceptAll_def emptyScheduler_def logTo_def Let_def

theorem stopAllTasks_clears_witness:
  "scheduledTasks twoTriggers = [0, 1] \<and>
   map running (cronTasks twoTriggers) = [True, True] \<and>
   scheduledTasks (stopAllTasks twoTriggers) = [] \<and>
   map running (cronTasks (stopAllTasks twoTriggers)) = [False, False] \<and>
   stopAllTasks (stopAllTasks twoTriggers) =
     (stopAllTasks twoTriggers)
       \<lparr>logger := logger (stopAllTasks twoTriggers) @ [(Info, ''Stopping 0 scheduled tasks'')]\<rparr>"
proof -
  have owned: "scheduledTasks twoTriggers = [0, 1]"
    and store: "map running (cronTasks twoTriggers) = [True, True]"
    by (simp_all add: twoTriggers_def scheduling_defs)
  from store have len: "length (cronTasks twoTriggers) = 2"
    by (metis length_map length_Cons list.size(3) numeral_2_eq_2)
  note main = stopAllTasks_clears [of twoTriggers]
  from main owned len have "\<not> running (cronTasks (stopAllTasks twoTriggers) ! 0)"
    and "\<not> running (cronTasks (stopAllTasks twoTriggers) ! 1)"
    by simp_all
  moreover from main len have "length (cronTasks (stopAllTasks twoTriggers)) = 2" by simp
  ultimately have stopped: "map running (cronTasks (stopAllTasks twoTriggers)) = [False, False]"
    by (auto simp: list_eq_iff_nth_eq less_Suc_eq numeral_2_eq_2)
  from main have "scheduledTasks (stopAllTasks twoTriggers) = []" by simp
  moreover from stopAllTasks_clears [of "stopAllTasks twoTriggers"] this
  have "stopAllTasks (stopAllTasks twoTriggers) =
     (stopAllTasks twoTriggers)
       \<lparr>logger := logger (stopAllTasks twoTriggers) @ [(Info, ''Stopping 0 scheduled tasks'')]\<rparr>"
    by simp
  ultimately show ?thesis using owned store stopped by simp
qed

section \<open>A task that raises during a fire\<close>

lemma callback_raising:
  "task (app s) = (Inl err, w) \<Longrightarrow>
   callback c task s =
     (Inr (), s\<lparr>logger := logger s @ [(Info, ''Running scheduled task: '' @ c),
                                       (Err, ''Error in scheduled task: '' @ message err)],
                app := w\<rparr>)"
  by (simp add: callback_def logTo_def Let_def)

text \<open>
  C7. When a running trigger fires and its task raises, the callback that \<open>scheduleTask\<close>
  registered catches the error and logs it: the fire completes without an error, the owned
  list and the store of triggers are as before (the trigger is still running), and the
  trigger, like every other trigger that could fire before, can fire again.
\<close>

theorem fire_swallows_task_error:
  assumes "h < length (cronTasks s)" and "running (cronTasks s ! h)"
    and "callbackTask (cronTasks s ! h) (app s) = (Inl err, w)"
  shows "\<exists>s'. fire h s = Some (Inr (), s') \<and>
           s' = s\<lparr>logger := logger s @
                   [(Info, ''Running scheduled task: '' @ expression (cronTasks s ! h)),
                    (Err, ''Error in scheduled task: '' @ message err)],
                  app := w\<rparr> \<and>
           scheduledTasks s' = scheduledTasks s \<and>
           cronTasks s' = cronTasks s \<and>
           fire h s' \<noteq> None \<and>
           (\<forall>k. fire k s \<noteq> None \<longrightarrow> fire k s' \<noteq> None)"
  using assms by (simp add: fire_def callback_raising)

theorem fire_swallows_task_error_witness:
  "fire 0 raisingScheduler =
     Some (Inr (), raisingScheduler
       \<lparr>logger := logger raisingScheduler @
          [(Info, ''Running scheduled task: */15 * * * *''),
           (Err, ''Error in scheduled task: boom'')],
        app := 1\<rparr>) \<and>
   scheduledTasks raisingScheduler = [0] \<and>
   fire 0 (raisingScheduler
       \<lparr>logger := logger raisingScheduler @
          [(Info, ''Running scheduled task: */15 * * * *''),
           (Err, ''Error in scheduled task: boom'')],
        app := 1\<rparr>) \<noteq> None"
proof -
  have shape: "cronTasks raisingScheduler =
      [\<lparr>expression = ''*/15 * * * *'', callbackTask = raisingTask, running = True\<rparr>]"
    and owned: "scheduledTasks raisingScheduler = [0]"
    and state: "app raisingScheduler = 0"
    by (simp_all add: raisingScheduler_def scheduleTask_def acceptAll_def emptyScheduler_def
        logTo_def Let_def)
  have "callbackTask (cronTasks raisingScheduler ! 0) (app raisingScheduler) =
      (Inl (Error ''boom''), 1)"
    by (simp add: shape state raisingTask_def)
  from fire_swallows_task_error [OF _ _ this] shape owned show ?thesis
    by simp
qed

section \<open>Scheduling several daily times\<close>

lemma scheduleTask_accepted:
  "validate c \<Longrightarrow>
   scheduleTask validate c task s =
     (Inr (length (cronTasks s)),
      s\<lparr>scheduledTasks := scheduledTasks s @ [length (cronTasks s)],
        cronTasks := cronTasks s @ [\<lparr>expression = c, callbackTask = task, running = True\<rparr>],
        logger := logger s @ [(Info, ''Scheduling task with cron expression: '' @ c)]\<rparr>)"
  by (simp add: scheduleTask_def logTo_def Let_def)

lemma dailyTimeToCron_rejects:
  "\<not> timeRegex_test t \<Longrightarrow>
   dailyTimeToCron t = Inl (Error ''Invalid time format. Must be in 24-hour format (HH:MM).'')"
  by (simp add: dailyTimeToCron_def)

lemma scheduleEach_prefix:
  assumes "\<forall>t \<in> set pre. \<exists>c. dailyTimeToCron t = Inr c \<and> validate c"
    and "\<not> timeRegex_test bad"
  shows "\<exists>s'. scheduleEach validate (pre @ bad # post) task acc s =
           (Inl (Error ''Invalid time format. Must be in 24-hour format (HH:MM).''), s') \<and>
         scheduledTasks s' =
           scheduledTasks s @ [length (cronTasks s) ..< length (cronTasks s) + length pre] \<and>
         cronTasks s' =
           cronTasks s @
           map (\<lambda>t. \<lparr>expression = projr (dailyTimeToCron t), callbackTask = task,
                      running = True\<rparr>) pre"
  using assms
proof (induction pre arbitrary: acc s)
  case Nil
  then show ?case by (simp add: dailyTimeToCron_rejects)
next
  case (Cons t pre)
  from Cons.prems obtain c where c: "dailyTimeToCron t = Inr c" "validate c"
    by auto
  let ?s1 = "logTo Info (''Scheduling task for daily time: '' @ t @ '' ('' @ c @ '')'') s"
  let ?s2 = "snd (scheduleTask validate c task ?s1)"
  have step: "scheduleEach validate ((t # pre) @ bad # post) task acc s =
      scheduleEach validate (pre @ bad # post) task (acc @ [length (cronTasks s)]) ?s2"
    using c by (simp add: scheduleTask_accepted Let_def logTo_def)
  have owned: "scheduledTasks ?s2 = scheduledTasks s @ [length (cronTasks s)]"
    and store: "cronTasks ?s2 =
      cronTasks s @ [\<lparr>expression = c, callbackTask = task, running = True\<rparr>]"
    using c by (simp_all add: scheduleTask_accepted logTo_def)
  from Cons.IH [of "acc @ [length (cronTasks s)]" ?s2] Cons.prems
  obtain s' where s': "scheduleEach validate (pre @ bad # post) task
        (acc @ [length (cronTasks s)]) ?s2 =
      (Inl (Error ''Invalid time format. Must be in 24-hour format (HH:MM).''), s')"
    "scheduledTasks s' =
       scheduledTasks ?s2 @ [length (cronTasks ?s2) ..< length (cronTasks ?s2) + length pre]"
    "cronTasks s' = cronTasks ?s2 @
       map (\<lambda>t. \<lparr>expression = projr (dailyTimeToCron t), callbackTask = task,
                  running = True\<rparr>) pre"
    by auto
  have "[length (cronTasks s) ..< length (cronTasks s) + length (t # pre)] =
      length (cronTasks s) # [Suc (length (cronTasks s)) ..< Suc (length (cronTasks s)) + length pre]"
    using upt_conv_Cons [of "length (cronTasks s)" "length (cronTasks s) + length (t # pre)"]
    by (simp del: upt_Suc)
  with step s' owned store c show ?case
    by (simp del: upt_Suc)
qed

text \<open>
  C1, as the code has it. \<open>scheduleMultipleDailyTimes\<close> checks and registers the entries one
  at a time, in list order. When the entries before some position all pass the format check
  (and node-cron accepts their expressions) and the entry at that position fails it, the
  call fails with the format error, and the triggers of the entries before it have been
  registered and stay in the owned list: one new running trigger per such entry, in order.
  No new trigger is registered only when the failing entry comes first.
\<close>

theorem scheduleMultipleDailyTimes_keeps_prefix:
  assumes "\<forall>t \<in> set pre. \<exists>c. dailyTimeToCron t = Inr c \<and> validate c"
    and "\<not> timeRegex_test bad"
  shows "\<exists>s'. scheduleMultipleDailyTimes validate (pre @ bad # post) task s =
           (Inl (Error ''Invalid time format. Must be in 24-hour format (HH:MM).''), s') \<and>
         scheduledTasks s' =
           scheduledTasks s @ [length (cronTasks s) ..< length (cronTasks s) + length pre] \<and>
         cronTasks s' =
           cronTasks s @
           map (\<lambda>t. \<lparr>expression = projr (dailyTimeToCron t), callbackTask = task,
                      running = True\<rparr>) pre"
  using scheduleEach_prefix [OF assms] by (simp add: scheduleMultipleDailyTimes_def)

theorem scheduleMultipleDailyTimes_keeps_prefix_witness:
  "\<exists>s'. scheduleMultipleDailyTimes acceptAll [''09:00'', ''21:30'', ''25:00'', ''10:00'']
           countingTask emptyScheduler =
           (Inl (Error ''Invalid time format. Must be in 24-hour format (HH:MM).''), s') \<and>
         scheduledTasks s' = [0, 1] \<and>
         cronTasks s' =
           [\<lparr>expression = ''0 9 * * *'', callbackTask = countingTask, running = True\<rparr>,
            \<lparr>expression = ''30 21 * * *'', callbackTask = countingTask, running = True\<rparr>]"
proof -
  have valid: "\<forall>t \<in> set [''09:00'', ''21:30'']. \<exists>c. dailyTimeToCron t = Inr c \<and> acceptAll c"
    and c1: "dailyTimeToCron ''09:00'' = Inr ''0 9 * * *''"
    and c2: "dailyTimeToCron ''21:30'' = Inr ''30 21 * * *''"
    by (simp_all add: scheduling_defs)
  have invalid: "\<not> timeRegex_test ''25:00''"
    by (simp add: scheduling_defs)
  have upt: "[0..<2] = [0, Suc 0]"
    by (simp add: upt_conv_Cons)
  from scheduleMultipleDailyTimes_keeps_prefix [OF valid invalid,
      of "[''10:00'']" countingTask emptyScheduler]
  show ?thesis
    by (simp add: c1 c2 emptyScheduler_def upt)
qed

text \<open>
  The claim as the specification words it, that a failing call registers nothing, does not
  hold: on \<^verbatim>\<open>["09:00", "25:00"]\<close> the call fails and the trigger for 09:00 is owned and
  running afterwards.
\<close>

theorem scheduleMultipleDailyTimes_not_atomic:
  "fst (scheduleMultipleDailyTimes acceptAll [''09:00'', ''25:00''] countingTask emptyScheduler) =
     Inl (Error ''Invalid time format. Must be in 24-hour format (HH:MM).'') \<and>
   scheduledTasks emptyScheduler = [] \<and>
   scheduledTasks
     (snd (scheduleMultipleDailyTimes acceptAll [''09:00'', ''25:00''] countingTask emptyScheduler)) =
     [0] \<and>
   map running (cronTasks
     (snd (scheduleMultipleDailyTimes acceptAll [''09:00'', ''25:00''] countingTask emptyScheduler))) =
     [True]"
  by (simp add: scheduling_defs)

section \<open>Daily times\<close>

lemma isDigit_cases:
  "isDigit c \<longleftrightarrow> c = CHR ''0'' \<or> c = CHR ''1'' \<or> c = CHR ''2'' \<or> c = CHR ''3'' \<or> c = CHR ''4'' \<or>
     c = CHR ''5'' \<or> c = CHR ''6'' \<or> c = CHR ''7'' \<or> c = CHR ''8'' \<or> c = CHR ''9''"
  by (auto simp: isDigit_def)

lemma digitValue_less: "isDigit c \<Longrightarrow> digitValue c < 10"
  unfolding isDigit_cases by (elim disjE) (simp_all add: digitValue_def)

lemma class_01: "isDigit c \<Longrightarrow> (c \<in> set ''01'') = (digitValue c < 2)"
  unfolding isDigit_cases by (elim disjE) (simp_all add: digitValue_def)

lemma class_0123: "isDigit c \<Longrightarrow> (c \<in> set ''0123'') = (digitValue c < 4)"
  unfolding isDigit_cases by (elim disjE) (simp_all add: digitValue_def)

lemma class_012345: "isDigit c \<Longrightarrow> (c \<in> set ''012345'') = (digitValue c < 6)"
  unfolding isDigit_cases by (elim disjE) (simp_all add: digitValue_def)

lemma class_2: "isDigit c \<Longrightarrow> (c = CHR ''2'') = (digitValue c = 2)"
  unfolding isDigit_cases by (elim disjE) (simp_all add: digitValue_def)

lemma decimal2: "decimal [a, b] = 10 * digitValue a + digitValue b"
  by (simp add: decimal_def)

lemma decimal1: "decimal [b] = digitValue b"
  by (simp add: decimal_def)

lemma hour_range:
  assumes a: "isDigit a" and b: "isDigit b"
  shows "((a \<in> set ''01'') \<or> (a = CHR ''2'' \<and> b \<in> set ''0123'')) = (decimal [a, b] < 24)"
  unfolding class_01 [OF a] class_2 [OF a] class_0123 [OF b] decimal2
  using digitValue_less [OF a] digitValue_less [OF b] by arith

lemma minute_range:
  assumes a: "isDigit a" and b: "isDigit b"
  shows "(a \<in> set ''012345'') = (decimal [a, b] < 60)"
  unfolding class_012345 [OF a] decimal2
  using digitValue_less [OF a] digitValue_less [OF b] by arith


lemma digit_not_colon: "isDigit c \<Longrightarrow> c \<noteq> CHR '':''"
  by (auto simp: isDigit_def)

lemma hourGroup_shape:
  "hourGroup h \<longleftrightarrow>
     (\<exists>b. h = [b] \<and> isDigit b) \<or>
     (\<exists>a b. h = [a, b] \<and> isDigit a \<and> isDigit b \<and> decimal [a, b] < 24)"
proof -
  have two: "((a \<in> set ''01'' \<and> isDigit b) \<or> (a = CHR ''2'' \<and> b \<in> set ''0123'')) =
      (isDigit a \<and> isDigit b \<and> decimal [a, b] < 24)" for a b
  proof (cases "isDigit a \<and> isDigit b")
    case True
    then show ?thesis using hour_range [of a b] by blast
  next
    case False
    then show ?thesis by (auto simp: isDigit_def)
  qed
  show ?thesis
    unfolding hourGroup_def
    by (simp only: two split: list.split) auto
qed

lemma minuteGroup_shape:
  "minuteGroup m \<longleftrightarrow>
     (\<exists>d e. m = [d, e] \<and> isDigit d \<and> isDigit e \<and> decimal [d, e] < 60)"
proof -
  have two: "(d \<in> set ''012345'' \<and> isDigit e) =
      (isDigit d \<and> isDigit e \<and> decimal [d, e] < 60)" for d e
  proof (cases "isDigit d \<and> isDigit e")
    case True
    then show ?thesis using minute_range [of d e] by blast
  next
    case False
    then show ?thesis by (auto simp: isDigit_def)
  qed
  show ?thesis
    unfolding minuteGroup_def
    by (simp only: two split: list.split) auto
qed


lemma timeRegex_test_shape:
  "timeRegex_test t \<longleftrightarrow>
     (\<exists>b d e. t = [b, CHR '':'', d, e] \<and> isDigit b \<and>
        isDigit d \<and> isDigit e \<and> decimal [d, e] < 60) \<or>
     (\<exists>a b d e. t = [a, b, CHR '':'', d, e] \<and> isDigit a \<and> isDigit b \<and> decimal [a, b] < 24 \<and>
        isDigit d \<and> isDigit e \<and> decimal [d, e] < 60)"
  (is "?lhs \<longleftrightarrow> ?one \<or> ?two")
proof
  assume ?lhs
  let ?P = "\<lambda>c. c \<noteq> CHR '':''"
  from \<open>?lhs\<close> obtain colon rest where
    hour: "hourGroup (takeWhile ?P t)" and
    tail: "dropWhile ?P t = colon # rest" and
    minute: "minuteGroup rest"
    by (auto simp: timeRegex_test_def split: list.splits)
  from tail have "colon = CHR '':''"
    using hd_dropWhile [of ?P t] by auto
  with tail have t: "t = takeWhile ?P t @ CHR '':'' # rest"
    using takeWhile_dropWhile_id [of ?P t] by simp
  from minute obtain d e where
    rest: "rest = [d, e]" "isDigit d" "isDigit e" "decimal [d, e] < 60"
    by (auto simp: minuteGroup_shape)
  from hour consider
    b where "takeWhile ?P t = [b]" "isDigit b"
    | a b where "takeWhile ?P t = [a, b]" "isDigit a" "isDigit b" "decimal [a, b] < 24"
    by (auto simp: hourGroup_shape)
  then show "?one \<or> ?two"
  proof cases
    case 1
    with t rest have ?one by auto
    then show ?thesis ..
  next
    case 2
    with t rest have ?two by auto
    then show ?thesis ..
  qed
next
  assume "?one \<or> ?two"
  then show ?lhs
  proof
    assume ?one
    then obtain b d e where
      "t = [b, CHR '':'', d, e]" "isDigit b" "isDigit d" "isDigit e" "decimal [d, e] < 60"
      by blast
    then show ?lhs
      by (simp add: timeRegex_test_def digit_not_colon hourGroup_shape minuteGroup_shape)
  next
    assume ?two
    then obtain a b d e where
      "t = [a, b, CHR '':'', d, e]" "isDigit a" "isDigit b" "decimal [a, b] < 24"
      "isDigit d" "isDigit e" "decimal [d, e] < 60"
      by blast
    then show ?lhs
      by (simp add: timeRegex_test_def digit_not_colon hourGroup_shape minuteGroup_shape)
  qed
qed

lemma accepted_time_short:
  assumes "isDigit b" "isDigit d" "isDigit e" "decimal [d, e] < 60"
  shows "accepted_time [b, CHR '':'', d, e] = Some (decimal [b], decimal [d, e])"
  using assms digitValue_less [of b]
  by (simp add: accepted_time_def spec_strict_HHMM_def isDigit_def decimal2 decimal1 digitValue_def)

lemma accepted_time_long:
  assumes "isDigit a" "isDigit b" "decimal [a, b] < 24" "isDigit d" "isDigit e" "decimal [d, e] < 60"
  shows "accepted_time [a, b, CHR '':'', d, e] = Some (decimal [a, b], decimal [d, e])"
  using assms by (simp add: accepted_time_def spec_strict_HHMM_def)

lemma accepted_time_shape:
  assumes "accepted_time t = Some hm"
  shows "timeRegex_test t"
proof (cases "spec_strict_HHMM t")
  case (Some x)
  then show ?thesis
    unfolding timeRegex_test_shape
    by (auto simp: spec_strict_HHMM_def split: list.splits if_splits)
next
  case None
  with assms have "spec_strict_HHMM (CHR ''0'' # t) = Some hm"
    by (simp add: accepted_time_def)
  then show ?thesis
    unfolding timeRegex_test_shape
    by (auto simp: spec_strict_HHMM_def split: list.splits if_splits)
qed

lemma cron_short:
  assumes "isDigit b" "isDigit d" "isDigit e"
  shows "map Number (split (CHR '':'') [b, CHR '':'', d, e]) = [Num (decimal [b]), Num (decimal [d, e])]"
  using assms by (simp add: digit_not_colon Number_def)

lemma cron_long:
  assumes "isDigit a" "isDigit b" "isDigit d" "isDigit e"
  shows "map Number (split (CHR '':'') [a, b, CHR '':'', d, e]) =
    [Num (decimal [a, b]), Num (decimal [d, e])]"
  using assms by (simp add: digit_not_colon Number_def)

text \<open>
  C4, as the code has it. \<open>dailyTimeToCron\<close> accepts exactly the strings that are a
  zero-padded \<^verbatim>\<open>HH:MM\<close> time from 00:00 to 23:59, or such a time with the leading zero of the
  hour dropped (\<^verbatim>\<open>H:MM\<close>, from 0:00 to 9:59). For these it returns \<^verbatim>\<open>M H * * *\<close>, the minute
  and then the hour as numbers. For every other string it raises the format error.
\<close>

theorem dailyTimeToCron_accepts:
  "dailyTimeToCron t =
     (case accepted_time t of
        Some (h, m) \<Rightarrow> Inr (showNat m @ '' '' @ showNat h @ '' * * *'')
      | None \<Rightarrow> Inl (Error ''Invalid time format. Must be in 24-hour format (HH:MM).''))"
proof (cases "timeRegex_test t")
  case False
  then have "accepted_time t = None"
    using accepted_time_shape [of t] by (cases "accepted_time t") auto
  with False show ?thesis by (simp add: dailyTimeToCron_def)
next
  case True
  then consider
    b d e where "t = [b, CHR '':'', d, e]" "isDigit b"
      "isDigit d" "isDigit e" "decimal [d, e] < 60"
    | a b d e where "t = [a, b, CHR '':'', d, e]" "isDigit a" "isDigit b" "decimal [a, b] < 24"
      "isDigit d" "isDigit e" "decimal [d, e] < 60"
    unfolding timeRegex_test_shape by blast
  then show ?thesis
  proof cases
    case 1
    with True show ?thesis
      by (simp add: dailyTimeToCron_def accepted_time_short cron_short del: split.simps)
  next
    case 2
    with True show ?thesis
      by (simp add: dailyTimeToCron_def accepted_time_long cron_long del: split.simps)
  qed
qed

theorem dailyTimeToCron_accepts_witness:
  "dailyTimeToCron ''09:05'' = Inr ''5 9 * * *'' \<and>
   dailyTimeToCron ''23:59'' = Inr ''59 23 * * *'' \<and>
   dailyTimeToCron ''9:5'' =
     Inl (Error ''Invalid time format. Must be in 24-hour format (HH:MM).'') \<and>
   dailyTimeToCron ''24:00'' =
     Inl (Error ''Invalid time format. Must be in 24-hour format (HH:MM).'')"
  using dailyTimeToCron_accepts [of "''09:05''"] dailyTimeToCron_accepts [of "''23:59''"]
    dailyTimeToCron_accepts [of "''9:5''"] dailyTimeToCron_accepts [of "''24:00''"]
  by (simp add: accepted_time_def spec_strict_HHMM_def isDigit_def decimal_def digitValue_def
      showNat.simps digitChar_def)

text \<open>
  The claim as the specification words it, that only zero-padded times are accepted, does
  not hold: \<^verbatim>\<open>"9:05"\<close> is not a zero-padded \<^verbatim>\<open>HH:MM\<close> and is accepted.
\<close>

theorem dailyTimeToCron_unpadded_hour:
  "spec_strict_HHMM ''9:05'' = None \<and> dailyTimeToCron ''9:05'' = Inr ''5 9 * * *''"
  by (simp add: spec_strict_HHMM_def scheduling_defs)

section \<open>Messenger: one outcome per target, in order\<close>

lemma sends_append: "sends (xs @ ys) = sends xs @ sends ys"
  by (induction xs rule: sends.induct) simp_all

lemma timeouts_append: "timeouts (xs @ ys) = timeouts xs @ timeouts ys"
  by (induction xs rule: timeouts.induct) simp_all

lemma sendMessage_returns:
  "\<exists>r w1. sendMessage send now t msg w = (Inr r, w1) \<and> target r = t \<and>
     sends (events w1) = sends (events w) @ attempted msg t \<and>
     timeouts (events w1) = timeouts (events w)"
proof (cases "chooseEntity t")
  case (Inl err)
  then show ?thesis
    by (simp add: sendMessage_def sendMessage_try_def sendMessage_catch_def attempted_def
        emit_def Let_def sends_append timeouts_append)
next
  case (Inr e)
  obtain reply c where reply: "send (client w) e msg = (reply, c)"
    by (cases "send (client w) e msg")
  show ?thesis
  proof (cases reply)
    case (Inl err)
    with Inr reply show ?thesis
      by (simp add: sendMessage_def sendMessage_try_def sendMessage_catch_def attempted_def
          emit_def Let_def sends_append timeouts_append)
  next
    case (Inr result_id)
    with \<open>chooseEntity t = Inr e\<close> reply show ?thesis
      by (simp add: sendMessage_def sendMessage_try_def attempted_def
          emit_def Let_def sends_append timeouts_append)
  qed
qed

lemma pause_events:
  "sends (events (pause r d w)) = sends (events w) \<and>
   length (timeouts (events (pause r d w))) = Suc (length (timeouts (events w)))"
  by (simp add: pause_def emit_def Let_def sends_append timeouts_append)

lemma sendEach_returns:
  "\<exists>rs w'. sendEach send now ts msg d results w = (Inr (results @ rs), w') \<and>
     list_all2 (\<lambda>t r. target r = t \<and> (\<exists>wi wj. sendMessage send now t msg wi = (Inr r, wj))) ts rs \<and>
     sends (events w') = sends (events w) @ concat (map (attempted msg) ts) \<and>
     length (timeouts (events w')) = length (timeouts (events w)) + length ts"
proof (induction ts arbitrary: results w)
  case Nil
  then show ?case by simp
next
  case (Cons t ts)
  from sendMessage_returns [of send now t msg w]
  obtain r w1 where r: "sendMessage send now t msg w = (Inr r, w1)" "target r = t"
    "sends (events w1) = sends (events w) @ attempted msg t"
    "timeouts (events w1) = timeouts (events w)"
    by blast
  from Cons.IH [of "results @ [r]" "pause r d w1"]
  obtain rs w' where rs:
    "sendEach send now ts msg d (results @ [r]) (pause r d w1) = (Inr ((results @ [r]) @ rs), w')"
    "list_all2 (\<lambda>t r. target r = t \<and> (\<exists>wi wj. sendMessage send now t msg wi = (Inr r, wj))) ts rs"
    "sends (events w') = sends (events (pause r d w1)) @ concat (map (attempted msg) ts)"
    "length (timeouts (events w')) = length (timeouts (events (pause r d w1))) + length ts"
    by blast
  have "sendEach send now (t # ts) msg d results w = (Inr (results @ r # rs), w')"
    using r(1) rs(1) by simp
  moreover have "list_all2 (\<lambda>t r. target r = t \<and> (\<exists>wi wj. sendMessage send now t msg wi = (Inr r, wj)))
      (t # ts) (r # rs)"
    using r(1,2) rs(2) by auto
  moreover have "sends (events w') = sends (events w) @ concat (map (attempted msg) (t # ts))"
    using rs(3) r(3) pause_events [of r d w1] by simp
  moreover have "length (timeouts (events w')) = length (timeouts (events w)) + length (t # ts)"
    using rs(4) r(4) pause_events [of r d w1] by simp
  ultimately show ?case by blast
qed

lemma all_returns:
  "\<exists>rs w'. sendMessagesToAllTargets send now targets msg d w = (Inr rs, w') \<and>
     list_all2 (\<lambda>t r. target r = t \<and> (\<exists>wi wj. sendMessage send now t msg wi = (Inr r, wj))) targets rs \<and>
     sends (events w') = sends (events w) @ concat (map (attempted msg) targets) \<and>
     length (timeouts (events w')) = length (timeouts (events w)) + length targets"
proof -
  let ?w1 = "emit (Log Info (''Starting to send messages to '' @
                                showNat (length targets) @ '' targets'')) w"
  from sendEach_returns [of send now targets msg d "[]" ?w1]
  obtain rs w2 where rs: "sendEach send now targets msg d [] ?w1 = (Inr rs, w2)"
    "list_all2 (\<lambda>t r. target r = t \<and> (\<exists>wi wj. sendMessage send now t msg wi = (Inr r, wj))) targets rs"
    "sends (events w2) = sends (events ?w1) @ concat (map (attempted msg) targets)"
    "length (timeouts (events w2)) = length (timeouts (events ?w1)) + length targets"
    by auto
  then show ?thesis
    by (simp add: sendMessagesToAllTargets_def Let_def emit_def sends_append timeouts_append)
qed

lemma skeleton_append: "skeleton (xs @ ys) = skeleton xs @ skeleton ys"
  by (induction xs rule: skeleton.induct) simp_all

lemma sendMessage_reports:
  "\<exists>r w1 new. sendMessage send now t msg w = (Inr r, w1) \<and>
     reported send msg (client w) t r \<and>
     client w1 = clientStep send msg (client w) t \<and>
     events w1 = events w @ new \<and>
     skeleton new @ [Wait] = turn msg t"
proof (cases "chooseEntity t")
  case (Inl err)
  then have "message err = ''Invalid target configuration''"
    by (auto simp: chooseEntity_def split: if_splits)
  with Inl show ?thesis
    by (simp add: sendMessage_def sendMessage_try_def sendMessage_catch_def reported_def
        clientStep_def turn_def emit_def Let_def)
next
  case (Inr e)
  obtain reply c where reply: "send (client w) e msg = (reply, c)"
    by (cases "send (client w) e msg")
  show ?thesis
  proof (cases reply)
    case (Inl err)
    with Inr reply show ?thesis
      by (simp add: sendMessage_def sendMessage_try_def sendMessage_catch_def reported_def
          clientStep_def turn_def emit_def Let_def)
  next
    case (Inr result_id)
    with \<open>chooseEntity t = Inr e\<close> reply show ?thesis
      by (simp add: sendMessage_def sendMessage_try_def reported_def
          clientStep_def turn_def emit_def Let_def)
  qed
qed

lemma pause_waits:
  "\<exists>new. events (pause r d w) = events w @ new \<and> skeleton new = [Wait] \<and>
     client (pause r d w) = client w"
  by (simp add: pause_def emit_def Let_def)

lemma sendEach_reports:
  "\<exists>rs w' new. sendEach send now ts msg d results w = (Inr (results @ rs), w') \<and>
     length rs = length ts \<and>
     (\<forall>i<length ts. reported send msg (clientAfter send msg (client w) (take i ts)) (ts ! i) (rs ! i)) \<and>
     client w' = clientAfter send msg (client w) ts \<and>
     events w' = events w @ new \<and>
     skeleton new = concat (map (turn msg) ts)"
proof (induction ts arbitrary: results w)
  case Nil
  then show ?case by (simp add: clientAfter_def)
next
  case (Cons t ts)
  from sendMessage_reports [of send now t msg w]
  obtain r w1 new1 where r: "sendMessage send now t msg w = (Inr r, w1)"
    "reported send msg (client w) t r"
    "client w1 = clientStep send msg (client w) t"
    "events w1 = events w @ new1" "skeleton new1 @ [Wait] = turn msg t"
    by blast
  from pause_waits [of r d w1]
  obtain new2 where p: "events (pause r d w1) = events w1 @ new2" "skeleton new2 = [Wait]"
    "client (pause r d w1) = client w1"
    by blast
  from Cons.IH [of "results @ [r]" "pause r d w1"]
  obtain rs w' new3 where rs:
    "sendEach send now ts msg d (results @ [r]) (pause r d w1) = (Inr ((results @ [r]) @ rs), w')"
    "length rs = length ts"
    "\<forall>i<length ts. reported send msg
        (clientAfter send msg (client (pause r d w1)) (take i ts)) (ts ! i) (rs ! i)"
    "client w' = clientAfter send msg (client (pause r d w1)) ts"
    "events w' = events (pause r d w1) @ new3"
    "skeleton new3 = concat (map (turn msg) ts)"
    by blast
  have step: "clientAfter send msg (client w) (t # xs) =
      clientAfter send msg (client (pause r d w1)) xs" for xs
    by (simp add: clientAfter_def p(3) r(3))
  have "sendEach send now (t # ts) msg d results w = (Inr (results @ r # rs), w')"
    using r(1) rs(1) by simp
  moreover have "length (r # rs) = length (t # ts)"
    using rs(2) by simp
  moreover have "\<forall>i<length (t # ts). reported send msg
      (clientAfter send msg (client w) (take i (t # ts))) ((t # ts) ! i) ((r # rs) ! i)"
  proof (intro allI impI)
    fix i assume "i < length (t # ts)"
    then show "reported send msg
      (clientAfter send msg (client w) (take i (t # ts))) ((t # ts) ! i) ((r # rs) ! i)"
    proof (cases i)
      case 0
      with r(2) show ?thesis by (simp add: clientAfter_def)
    next
      case (Suc j)
      with \<open>i < length (t # ts)\<close> rs(3) show ?thesis
        by (simp add: step)
    qed
  qed
  moreover have "client w' = clientAfter send msg (client w) (t # ts)"
    using rs(4) by (simp add: step)
  moreover have "events w' = events w @ (new1 @ new2 @ new3)"
    using rs(5) p(1) r(4) by simp
  moreover have "skeleton (new1 @ new2 @ new3) = concat (map (turn msg) (t # ts))"
    using rs(6) p(2) r(5) by (simp add: skeleton_append)
  ultimately show ?case by blast
qed

text \<open>
  C6. For every list of targets, \<open>sendMessagesToAllTargets\<close> returns normally (\<open>Inr\<close>),
  whatever the client answers and whatever the targets look like.
  \<^item> The outcomes are as many as the targets, and the outcome at each position carries the
    target at that position.
  \<^item> The outcome at each position is the record of what the client answered for that target,
    asked from the state in which the targets before it left the client; the client ends in
    the state after all targets.
  \<^item> The run only appends to the trace. Log lines aside, what it appends is one turn per
    target, in the order of the targets: the call of the client for that target and then
    its wait, before the call for the next target.
\<close>

theorem sendMessagesToAllTargets_in_order:
  "\<exists>rs w' new. sendMessagesToAllTargets send now targets msg d w = (Inr rs, w') \<and>
     length rs = length targets \<and>
     map target rs = targets \<and>
     (\<forall>i<length targets.
        reported send msg (clientAfter send msg (client w) (take i targets))
          (targets ! i) (rs ! i)) \<and>
     client w' = clientAfter send msg (client w) targets \<and>
     events w' = events w @ new \<and>
     skeleton new = concat (map (turn msg) targets) \<and>
     sends (events w') = sends (events w) @ concat (map (attempted msg) targets) \<and>
     length (timeouts (events w')) = length (timeouts (events w)) + length targets"
proof -
  let ?start = "Log Info (''Starting to send messages to '' @
                            showNat (length targets) @ '' targets'')"
  from sendEach_reports [of send now targets msg d "[]" "emit ?start w"]
  obtain rs w2 new where rs:
    "sendEach send now targets msg d [] (emit ?start w) = (Inr rs, w2)"
    "length rs = length targets"
    "\<forall>i<length targets. reported send msg
        (clientAfter send msg (client w) (take i targets)) (targets ! i) (rs ! i)"
    "client w2 = clientAfter send msg (client w) targets"
    "events w2 = events (emit ?start w) @ new"
    "skeleton new = concat (map (turn msg) targets)"
    by (auto simp: emit_def)
  let ?done = "Log Info (''Completed sending messages. Success: '' @
                           showNat (length (filter success rs)) @ ''/'' @
                           showNat (length targets))"
  have run: "sendMessagesToAllTargets send now targets msg d w = (Inr rs, emit ?done w2)"
    using rs(1) by (simp add: sendMessagesToAllTargets_def Let_def)
  have "map target rs = targets"
  proof (rule nth_equalityI)
    show "length (map target rs) = length targets" using rs(2) by simp
  next
    fix i assume "i < length (map target rs)"
    with rs(2,3) show "map target rs ! i = targets ! i"
      by (simp add: reported_def)
  qed
  moreover have "client (emit ?done w2) = clientAfter send msg (client w) targets"
    using rs(4) by (simp add: emit_def)
  moreover have "events (emit ?done w2) = events w @ ([?start] @ new @ [?done])"
    using rs(5) by (simp add: emit_def)
  moreover have "skeleton ([?start] @ new @ [?done]) = concat (map (turn msg) targets)"
    using rs(6) by (simp add: skeleton_append)
  moreover have "sends (events (emit ?done w2)) =
      sends (events w) @ concat (map (attempted msg) targets)"
    and "length (timeouts (events (emit ?done w2))) =
      length (timeouts (events w)) + length targets"
    using all_returns [of send now targets msg d w] run by auto
  ultimately show ?thesis using run rs(2,3) by blast
qed


lemmas messenger_defs = sendMessagesToAllTargets_def sendMessage_def sendMessage_try_def
  sendMessage_catch_def chooseEntity_def truthyId_def truthyName_def truthyNum_def pause_def
  emit_def describe_def extractFloodWaitTime_def isDigit_def decimal_def digitValue_def
  showNat.simps digitChar_def showInt_def Let_def
  scriptedClient_def fixedClock_def freshWorld_def
  groupTarget_def chatTarget_def emptyTarget_def

theorem sendMessagesToAllTargets_in_order_witness:
  "\<exists>rs w'. sendMessagesToAllTargets scriptedClient fixedClock
       [groupTarget, emptyTarget, chatTarget] ''hi'' 100
       (freshWorld [Inl (Error ''FLOOD_WAIT_5''), Inr 7]) = (Inr rs, w') \<and>
     length rs = 3 \<and>
     map target rs = [groupTarget, emptyTarget, chatTarget] \<and>
     \<not> success (rs ! 0) \<and> error (rs ! 0) = Some ''RATE_LIMITED'' \<and>
     \<not> success (rs ! 1) \<and> error (rs ! 1) = Some ''Invalid target configuration'' \<and>
     success (rs ! 2) \<and> messageId (rs ! 2) = Some 7 \<and>
     client w' = [] \<and>
     skeleton (events w') =
       [Attempt (Username ''group_username'') ''hi'', Wait,
        Wait,
        Attempt (ChatId 123456789) ''hi'', Wait]"
proof -
  let ?ts = "[groupTarget, emptyTarget, chatTarget]"
  let ?w = "freshWorld [Inl (Error ''FLOOD_WAIT_5''), Inr 7]"
  have entities: "chooseEntity groupTarget = Inr (Username ''group_username'')"
    "chooseEntity emptyTarget = Inl (Error ''Invalid target configuration'')"
    "chooseEntity chatTarget = Inr (ChatId 123456789)"
    by (simp_all add: chooseEntity_def truthyId_def truthyName_def groupTarget_def
        emptyTarget_def chatTarget_def)
  have clients: "clientAfter scriptedClient ''hi'' (client ?w) (take 0 ?ts) =
      [Inl (Error ''FLOOD_WAIT_5''), Inr 7]"
    "clientAfter scriptedClient ''hi'' (client ?w) (take 1 ?ts) = [Inr 7]"
    "clientAfter scriptedClient ''hi'' (client ?w) (take 2 ?ts) = [Inr 7]"
    "clientAfter scriptedClient ''hi'' (client ?w) ?ts = []"
    by (simp_all add: clientAfter_def clientStep_def entities scriptedClient_def freshWorld_def)
  from sendMessagesToAllTargets_in_order [of scriptedClient fixedClock ?ts "''hi''" 100 ?w]
  obtain rs w' new where run:
    "sendMessagesToAllTargets scriptedClient fixedClock ?ts ''hi'' 100 ?w = (Inr rs, w')"
    "length rs = length ?ts" "map target rs = ?ts"
    "\<forall>i<length ?ts. reported scriptedClient ''hi''
        (clientAfter scriptedClient ''hi'' (client ?w) (take i ?ts)) (?ts ! i) (rs ! i)"
    "client w' = clientAfter scriptedClient ''hi'' (client ?w) ?ts"
    "events w' = events ?w @ new"
    "skeleton new = concat (map (turn ''hi'') ?ts)"
    by (elim exE conjE) (rule that)
  have "reported scriptedClient ''hi''
        (clientAfter scriptedClient ''hi'' (client ?w) (take 0 ?ts)) (?ts ! 0) (rs ! 0)"
    using run(4) [rule_format, of 0] by simp
  moreover have "reported scriptedClient ''hi''
        (clientAfter scriptedClient ''hi'' (client ?w) (take 1 ?ts)) (?ts ! 1) (rs ! 1)"
    using run(4) [rule_format, of 1] by simp
  moreover have "reported scriptedClient ''hi''
        (clientAfter scriptedClient ''hi'' (client ?w) (take 2 ?ts)) (?ts ! 2) (rs ! 2)"
    using run(4) [rule_format, of 2] by simp
  ultimately have outcomes: "\<not> success (rs ! 0) \<and> error (rs ! 0) = Some ''RATE_LIMITED''"
    "\<not> success (rs ! 1) \<and> error (rs ! 1) = Some ''Invalid target configuration''"
    "success (rs ! 2) \<and> messageId (rs ! 2) = Some 7"
    unfolding clients by (simp_all add: reported_def entities scriptedClient_def)
  have "skeleton (events w') =
       [Attempt (Username ''group_username'') ''hi'', Wait, Wait,
        Attempt (ChatId 123456789) ''hi'', Wait]"
    using run(6,7) by (simp add: turn_def entities freshWorld_def)
  with run(1,2,3,5) outcomes clients(4) show ?thesis
    by simp
qed

section \<open>Messenger: rate limits\<close>

lemma sendMessage_rate_limited:
  assumes "chooseEntity t = Inr e" and "send (client w) e msg = (Inl err, c)"
    and "str_includes (message err) ''FLOOD_WAIT''"
    and "extractFloodWaitTime (message err) \<le> 2 ^ 53"
  shows "sendMessage send now t msg w =
     (Inr \<lparr>success = False, target = t, messageId = None, error = Some ''RATE_LIMITED'',
           waitTime = Some (extractFloodWaitTime (message err)),
           timestamp = now (events w @ [Send e msg,
             Log Warn (''Rate limited! Need to wait '' @
               showNat (extractFloodWaitTime (message err)) @
               '' seconds before sending to '' @ describe t)])\<rparr>,
      \<lparr>client = c, events = events w @ [Send e msg,
             Log Warn (''Rate limited! Need to wait '' @
               showNat (extractFloodWaitTime (message err)) @
               '' seconds before sending to '' @ describe t)]\<rparr>)"
  using assms
  by (simp add: sendMessage_def sendMessage_try_def sendMessage_catch_def emit_def Let_def)

lemma takeWhile_digits:
  "list_all isDigit digits \<Longrightarrow> post = [] \<or> \<not> isDigit (hd post) \<Longrightarrow>
   takeWhile isDigit (digits @ post) = digits"
proof (induction digits)
  case Nil
  then show ?case by (cases post) auto
next
  case (Cons c cs)
  then show ?case by simp
qed

lemma matchFloodWait_leftmost:
  assumes "\<forall>i<length pre. \<not> (startsWith (drop i (pre @ rest)) ''FLOOD_WAIT_'' \<and>
             takeWhile isDigit (drop (i + 11) (pre @ rest)) \<noteq> [])"
  shows "matchFloodWait (pre @ rest) = matchFloodWait rest"
  using assms
proof (induction pre)
  case Nil
  then show ?case by simp
next
  case (Cons c pre)
  from Cons.prems have first: "\<not> (startsWith (c # pre @ rest) ''FLOOD_WAIT_'' \<and>
      takeWhile isDigit (drop 11 (c # pre @ rest)) \<noteq> [])"
    by (metis add_0 append_Cons drop0 length_greater_0_conv list.distinct(1))
  have "\<forall>i<length pre. \<not> (startsWith (drop i (pre @ rest)) ''FLOOD_WAIT_'' \<and>
             takeWhile isDigit (drop (i + 11) (pre @ rest)) \<noteq> [])"
  proof (intro allI impI)
    fix i assume "i < length pre"
    then have "Suc i < length (c # pre)" by simp
    with Cons.prems have "\<not> (startsWith (drop (Suc i) ((c # pre) @ rest)) ''FLOOD_WAIT_'' \<and>
             takeWhile isDigit (drop (Suc i + 11) ((c # pre) @ rest)) \<noteq> [])"
      by blast
    then show "\<not> (startsWith (drop i (pre @ rest)) ''FLOOD_WAIT_'' \<and>
             takeWhile isDigit (drop (i + 11) (pre @ rest)) \<noteq> [])"
      by (simp only: append_Cons drop_Suc_Cons add_Suc not_False_eq_True)
  qed
  with Cons.IH have "matchFloodWait (pre @ rest) = matchFloodWait rest"
    by blast
  moreover from first have "matchFloodWait ((c # pre) @ rest) = matchFloodWait (pre @ rest)"
    by (auto simp: Let_def)
  ultimately show ?case by simp
qed

text \<open>
  What \<open>extractFloodWaitTime\<close> parses. The regular expression takes its leftmost match:
  when the message is \<open>pre @ ''FLOOD_WAIT_'' @ digits @ post\<close> with at least one digit, no
  further digit at the start of \<open>post\<close>, and no match that starts inside \<open>pre\<close>, the result
  is the value of \<open>digits\<close>. The value is taken below \<open>2 ^ 53\<close>, where \<^verbatim>\<open>parseInt\<close> returns it
  exactly. When the pattern matches nowhere the result is 60.
\<close>

lemma extractFloodWaitTime_parsed:
  assumes "\<forall>i<length pre. \<not> (startsWith (drop i (pre @ ''FLOOD_WAIT_'' @ digits @ post))
               ''FLOOD_WAIT_'' \<and>
             takeWhile isDigit (drop (i + 11) (pre @ ''FLOOD_WAIT_'' @ digits @ post)) \<noteq> [])"
    and "digits \<noteq> []" and "list_all isDigit digits"
    and "post = [] \<or> \<not> isDigit (hd post)"
    and "decimal digits < 2 ^ 53"
  shows "extractFloodWaitTime (pre @ ''FLOOD_WAIT_'' @ digits @ post) = decimal digits"
proof -
  have "matchFloodWait (pre @ ''FLOOD_WAIT_'' @ digits @ post) =
      matchFloodWait (''FLOOD_WAIT_'' @ digits @ post)"
    by (rule matchFloodWait_leftmost [OF assms(1)])
  also have "\<dots> = Some digits"
    using assms(2-4) by (simp add: takeWhile_digits)
  finally show ?thesis
    using assms(2) by (simp add: extractFloodWaitTime_def)
qed

lemma extractFloodWaitTime_default:
  "matchFloodWait errorMessage = None \<Longrightarrow> extractFloodWaitTime errorMessage = 60"
  by (simp add: extractFloodWaitTime_def)

text \<open>
  Away from a waiting time of 0 the loop does what the comments of lines 83 and 85
  announce. When the client rejects a send with a message that contains \<^verbatim>\<open>FLOOD_WAIT\<close> and
  the parsed waiting time is not 0, the outcome records \<^verbatim>\<open>RATE_LIMITED\<close> with that waiting
  time, and the wait before the next target is one timer request of \<open>waitTime + 1\<close> seconds
  in the place of the delay between messages. The hypothesis on the size keeps the
  milliseconds below \<open>2 ^ 53\<close>, where the code's doubles are the model's integers.
\<close>

lemma nonzero_wait_is_padded:
  assumes "chooseEntity t = Inr e" and "send (client w) e msg = (Inl err, c)"
    and "str_includes (message err) ''FLOOD_WAIT''"
    and "extractFloodWaitTime (message err) \<noteq> 0"
    and "(extractFloodWaitTime (message err) + 1) * 1000 \<le> 2 ^ 53"
  shows "\<exists>r w1. sendMessage send now t msg w = (Inr r, w1) \<and>
            success r = False \<and> target r = t \<and> error r = Some ''RATE_LIMITED'' \<and>
            waitTime r = Some (extractFloodWaitTime (message err)) \<and>
            timeouts (events (pause r d w1)) =
              timeouts (events w) @ [(extractFloodWaitTime (message err) + 1) * 1000] \<and>
            sendEach send now (t # ts) msg d results w =
              sendEach send now ts msg d (results @ [r]) (pause r d w1)"
proof -
  from assms(5) have "extractFloodWaitTime (message err) \<le> 2 ^ 53"
    by simp
  from assms(4) sendMessage_rate_limited [where send = send and now = now, OF assms(1-3) this]
  show ?thesis
    by (simp add: pause_def truthyNum_def emit_def Let_def timeouts_append)
qed

lemma nonzero_wait_is_padded_example:
  "\<exists>r w1. sendMessage scriptedClient fixedClock groupTarget ''hi''
             (freshWorld [Inl (Error ''FLOOD_WAIT_5'')]) = (Inr r, w1) \<and>
           success r = False \<and> error r = Some ''RATE_LIMITED'' \<and> waitTime r = Some 5 \<and>
           timeouts (events (pause r 100 w1)) = [6000]"
proof -
  have entity: "chooseEntity groupTarget = Inr (Username ''group_username'')"
    by (simp add: chooseEntity_def groupTarget_def truthyId_def truthyName_def)
  have reply: "scriptedClient (client (freshWorld [Inl (Error ''FLOOD_WAIT_5'')]))
      (Username ''group_username'') ''hi'' = (Inl (Error ''FLOOD_WAIT_5''), [])"
    by (simp add: scriptedClient_def freshWorld_def)
  have marked: "str_includes (message (Error ''FLOOD_WAIT_5'')) ''FLOOD_WAIT''"
    by simp
  have "extractFloodWaitTime ([] @ ''FLOOD_WAIT_'' @ ''5'' @ []) = decimal ''5''"
    by (rule extractFloodWaitTime_parsed) (simp_all add: isDigit_def decimal_def digitValue_def)
  then have parsed: "extractFloodWaitTime ''FLOOD_WAIT_5'' = 5"
    by (simp add: decimal_def digitValue_def)
  then have nonzero: "extractFloodWaitTime (message (Error ''FLOOD_WAIT_5'')) \<noteq> 0"
    and bound: "(extractFloodWaitTime (message (Error ''FLOOD_WAIT_5'')) + 1) * 1000 \<le> 2 ^ 53"
    by simp_all
  from nonzero_wait_is_padded [where send = scriptedClient and now = fixedClock and d = 100
      and ts = "[]" and results = "[]", OF entity reply marked nonzero bound]
  show ?thesis
    by (auto simp: parsed freshWorld_def simp del: sendEach.simps)
qed

text \<open>
  C3. After every send that fails with a rate limit the wait before the next target is to
  be \<open>waitTime + 1\<close> seconds, and the code says so itself: line 83 reads
  \<^verbatim>\<open>If rate limited, wait the required time plus a small buffer\<close> and line 85
  \<^verbatim>\<open>Convert to ms and add 1s buffer\<close>. The test \<^verbatim>\<open>&& result.waitTime\<close> of line 84 misses the
  waiting time 0. Run on a client that rejects the first send with \<^verbatim>\<open>FLOOD_WAIT_0\<close>, with
  100 ms between messages: the outcome is \<^verbatim>\<open>RATE_LIMITED\<close> with \<open>waitTime = 0\<close>, and the
  timer is asked for 100 ms, less than the \<open>(0 + 1) * 1000\<close> ms of the buffered wait; the
  line \<^verbatim>\<open>Waiting 1 seconds due to rate limiting\<close> is not logged.
\<close>

theorem zero_wait_is_not_padded:
  "map error (projr (fst floodZeroRun)) = [Some ''RATE_LIMITED'', None] \<and>
   map waitTime (projr (fst floodZeroRun)) = [Some 0, None] \<and>
   timeouts (events (snd floodZeroRun)) = [100, 100] \<and>
   (100 :: nat) < (0 + 1) * 1000 \<and>
   events (snd floodZeroRun) =
     [Log Info ''Starting to send messages to 2 targets'',
      Send (Username ''group_username'') ''hi'',
      Log Warn ''Rate limited! Need to wait 0 seconds before sending to group group_username'',
      SetTimeout 100,
      Send (ChatId 123456789) ''hi'',
      Log Info ''Message sent successfully to chat 123456789'',
      SetTimeout 100,
      Log Info ''Completed sending messages. Success: 1/2'']"
  by (simp add: floodZeroRun_def messenger_defs)

text \<open>
  C9. When the client rejects a send with a message that contains \<^verbatim>\<open>FLOOD_WAIT\<close> and the
  parsed waiting time is 0, the outcome records the error \<^verbatim>\<open>RATE_LIMITED\<close> with \<open>waitTime\<close>
  0, and the wait before the next target is the ordinary delay between messages: the branch
  for rate limits asks for a truthy \<open>waitTime\<close>.
\<close>

theorem zero_wait_uses_normal_delay:
  assumes "chooseEntity t = Inr e" and "send (client w) e msg = (Inl err, c)"
    and "str_includes (message err) ''FLOOD_WAIT''"
    and "extractFloodWaitTime (message err) = 0"
  shows "\<exists>r w1. sendMessage send now t msg w = (Inr r, w1) \<and>
            success r = False \<and> target r = t \<and> error r = Some ''RATE_LIMITED'' \<and>
            waitTime r = Some 0 \<and>
            pause r d w1 = emit (SetTimeout d) w1 \<and>
            timeouts (events (pause r d w1)) = timeouts (events w) @ [d] \<and>
            sendEach send now (t # ts) msg d results w =
              sendEach send now ts msg d (results @ [r]) (emit (SetTimeout d) w1)"
proof -
  from assms(4) have "extractFloodWaitTime (message err) \<le> 2 ^ 53"
    by simp
  from assms(4) sendMessage_rate_limited [where send = send and now = now, OF assms(1-3) this]
  show ?thesis
    by (simp add: pause_def truthyNum_def emit_def Let_def timeouts_append)
qed


theorem zero_wait_uses_normal_delay_witness:
  "\<exists>r w1. sendMessage scriptedClient fixedClock groupTarget ''hi''
             (freshWorld [Inl (Error ''FLOOD_WAIT_0'')]) = (Inr r, w1) \<and>
           success r = False \<and> error r = Some ''RATE_LIMITED'' \<and> waitTime r = Some 0 \<and>
           pause r 2000 w1 = emit (SetTimeout 2000) w1 \<and>
           timeouts (events (pause r 2000 w1)) = [2000]"
proof -
  have entity: "chooseEntity groupTarget = Inr (Username ''group_username'')"
    by (simp add: chooseEntity_def groupTarget_def truthyId_def truthyName_def)
  have reply: "scriptedClient (client (freshWorld [Inl (Error ''FLOOD_WAIT_0'')]))
      (Username ''group_username'') ''hi'' = (Inl (Error ''FLOOD_WAIT_0''), [])"
    by (simp add: scriptedClient_def freshWorld_def)
  have marked: "str_includes (message (Error ''FLOOD_WAIT_0'')) ''FLOOD_WAIT''"
    by simp
  have "extractFloodWaitTime ''FLOOD_WAIT_0'' = 0"
    by (simp add: extractFloodWaitTime_def isDigit_def decimal_def digitValue_def)
  then have zero: "extractFloodWaitTime (message (Error ''FLOOD_WAIT_0'')) = 0"
    by simp
  from zero_wait_uses_normal_delay [where send = scriptedClient and now = fixedClock
      and d = 2000 and ts = "[]" and results = "[]", OF entity reply marked zero]
  show ?thesis
    by (auto simp: freshWorld_def simp del: sendEach.simps)
qed

section \<open>Messenger: a target without a usable id or username\<close>

lemma sendMessage_invalid:
  assumes "\<not> (target_type t = ''chat'' \<and> truthyId (target_id t))"
    and "\<not> truthyName (target_username t)"
  shows "sendMessage send now t msg w =
     (Inr \<lparr>success = False, target = t, messageId = None,
           error = Some ''Invalid target configuration'', waitTime = None,
           timestamp = now (events w @ [Log Err (''Failed to send message to '' @ describe t @
                                                   '': Invalid target configuration'')])\<rparr>,
      emit (Log Err (''Failed to send message to '' @ describe t @
                       '': Invalid target configuration'')) w)"
proof -
  from assms have "chooseEntity t = Inl (Error ''Invalid target configuration'')"
    by (auto simp: chooseEntity_def)
  then show ?thesis
    by (simp add: sendMessage_def sendMessage_try_def sendMessage_catch_def emit_def Let_def)
qed

text \<open>
  C10. For a target that is neither of type \<^verbatim>\<open>chat\<close> with a truthy id nor has a truthy
  username, \<open>sendMessage\<close> returns normally: the error \<^verbatim>\<open>Invalid target configuration\<close>
  raised in the \<^verbatim>\<open>try\<close> block comes back as an outcome with \<open>success = False\<close>, that
  message and a timestamp, and the client is not called. A run over a list that contains
  such a target returns an outcome for every target, the failed one at the position of that
  target, and makes the client calls of the targets before and after it.
\<close>

theorem invalid_target_is_reported:
  assumes "\<not> (target_type t = ''chat'' \<and> truthyId (target_id t))"
    and "\<not> truthyName (target_username t)"
  shows "sendMessage send now t msg w =
     (Inr \<lparr>success = False, target = t, messageId = None,
           error = Some ''Invalid target configuration'', waitTime = None,
           timestamp = now (events w @ [Log Err (''Failed to send message to '' @ describe t @
                                                   '': Invalid target configuration'')])\<rparr>,
      emit (Log Err (''Failed to send message to '' @ describe t @
                       '': Invalid target configuration'')) w) \<and>
    (\<exists>rs w'. sendMessagesToAllTargets send now (pre @ t # post) msg d w = (Inr rs, w') \<and>
       length rs = length pre + 1 + length post \<and>
       success (rs ! length pre) = False \<and>
       error (rs ! length pre) = Some ''Invalid target configuration'' \<and>
       sends (events w') =
         sends (events w) @ concat (map (attempted msg) pre) @ concat (map (attempted msg) post))"
proof
  show "sendMessage send now t msg w =
     (Inr \<lparr>success = False, target = t, messageId = None,
           error = Some ''Invalid target configuration'', waitTime = None,
           timestamp = now (events w @ [Log Err (''Failed to send message to '' @ describe t @
                                                   '': Invalid target configuration'')])\<rparr>,
      emit (Log Err (''Failed to send message to '' @ describe t @
                       '': Invalid target configuration'')) w)"
    by (rule sendMessage_invalid [OF assms])
next
  let ?P = "\<lambda>t r. target r = t \<and> (\<exists>wi wj. sendMessage send now t msg wi = (Inr r, wj))"
  from all_returns [of send now "pre @ t # post" msg d w]
  obtain rs w' where rs:
    "sendMessagesToAllTargets send now (pre @ t # post) msg d w = (Inr rs, w')"
    "list_all2 ?P (pre @ t # post) rs"
    "sends (events w') = sends (events w) @ concat (map (attempted msg) (pre @ t # post))"
    by blast
  from rs(2) have len: "length rs = length pre + 1 + length post"
    by (simp add: list_all2_lengthD [symmetric])
  from rs(2) have "?P ((pre @ t # post) ! length pre) (rs ! length pre)"
    by (rule list_all2_nthD) simp
  then obtain wi wj where "sendMessage send now t msg wi = (Inr (rs ! length pre), wj)"
    by auto
  with sendMessage_invalid [OF assms, of send now msg wi]
  have r: "success (rs ! length pre) = False"
    "error (rs ! length pre) = Some ''Invalid target configuration''"
    by auto
  from assms have "attempted msg t = []"
    by (auto simp: attempted_def chooseEntity_def)
  with rs(3) have "sends (events w') =
      sends (events w) @ concat (map (attempted msg) pre) @ concat (map (attempted msg) post)"
    by simp
  with rs(1) len r show "\<exists>rs w'. sendMessagesToAllTargets send now (pre @ t # post) msg d w = (Inr rs, w') \<and>
       length rs = length pre + 1 + length post \<and>
       success (rs ! length pre) = False \<and>
       error (rs ! length pre) = Some ''Invalid target configuration'' \<and>
       sends (events w') =
         sends (events w) @ concat (map (attempted msg) pre) @ concat (map (attempted msg) post)"
    by blast
qed

theorem invalid_target_is_reported_witness:
  "sendMessage scriptedClient fixedClock emptyTarget ''hi'' (freshWorld []) =
     (Inr \<lparr>success = False, target = emptyTarget, messageId = None,
           error = Some ''Invalid target configuration'', waitTime = None,
           timestamp = ''2024-01-01T00:00:00.000Z''\<rparr>,
      \<lparr>client = [], events = [Log Err
         ''Failed to send message to group undefined: Invalid target configuration'']\<rparr>) \<and>
   (\<exists>rs w'. sendMessagesToAllTargets scriptedClient fixedClock
        [groupTarget, emptyTarget, chatTarget] ''hi'' 100 (freshWorld []) = (Inr rs, w') \<and>
      length rs = 3 \<and>
      success (rs ! 1) = False \<and>
      error (rs ! 1) = Some ''Invalid target configuration'' \<and>
      sends (events w') = [(Username ''group_username'', ''hi''), (ChatId 123456789, ''hi'')])"
proof -
  have no_id: "\<not> (target_type emptyTarget = ''chat'' \<and> truthyId (target_id emptyTarget))"
    and no_name: "\<not> truthyName (target_username emptyTarget)"
    by (simp_all add: emptyTarget_def truthyName_def)
  from invalid_target_is_reported [OF no_id no_name, of scriptedClient fixedClock "''hi''"
      "freshWorld []" "[groupTarget]" "[chatTarget]" 100]
  show ?thesis
    by (simp add: attempted_def chooseEntity_def truthyId_def truthyName_def describe_def
        emit_def fixedClock_def freshWorld_def groupTarget_def chatTarget_def emptyTarget_def
        numeral_3_eq_3)
qed

section \<open>Messenger: no check of the list of targets\<close>

text \<open>
  C2, as the code has it. \<open>sendMessagesToAllTargets\<close> does not check its list of targets:
  it returns normally for every list, and for the empty list it returns the empty list of
  outcomes, having only written its two log lines (no call of the client, no wait).
\<close>

theorem sendMessagesToAllTargets_no_validation:
  "(\<exists>rs w'. sendMessagesToAllTargets send now targets msg d w = (Inr rs, w')) \<and>
   sendMessagesToAllTargets send now [] msg d w =
     (Inr [], w\<lparr>events := events w @
        [Log Info ''Starting to send messages to 0 targets'',
         Log Info ''Completed sending messages. Success: 0/0'']\<rparr>)"
proof
  from all_returns [of send now targets msg d w]
  show "\<exists>rs w'. sendMessagesToAllTargets send now targets msg d w = (Inr rs, w')"
    by blast
next
  show "sendMessagesToAllTargets send now [] msg d w =
     (Inr [], w\<lparr>events := events w @
        [Log Info ''Starting to send messages to 0 targets'',
         Log Info ''Completed sending messages. Success: 0/0'']\<rparr>)"
    by (simp add: sendMessagesToAllTargets_def emit_def Let_def showNat.simps digitChar_def)
qed

theorem sendMessagesToAllTargets_no_validation_witness:
  "sendMessagesToAllTargets scriptedClient fixedClock [] ''hi'' 2000 (freshWorld []) =
     (Inr [], \<lparr>client = [], events =
        [Log Info ''Starting to send messages to 0 targets'',
         Log Info ''Completed sending messages. Success: 0/0'']\<rparr>)"
  using sendMessagesToAllTargets_no_validation [of scriptedClient fixedClock "[]" "''hi''" 2000
      "freshWorld []"]
  by (simp add: freshWorld_def)

text \<open>
  The claim as the specification words it, that an empty list of targets makes the call
  fail, does not hold: the call returns the empty list of outcomes.
\<close>

theorem sendMessagesToAllTargets_empty_returns:
  "fst (sendMessagesToAllTargets scriptedClient fixedClock [] ''hi'' 2000 (freshWorld [])) = Inr [] \<and>
   \<not> isl (fst (sendMessagesToAllTargets scriptedClient fixedClock [] ''hi'' 2000 (freshWorld []))) \<and>
   sends (events (snd (sendMessagesToAllTargets scriptedClient fixedClock [] ''hi'' 2000
     (freshWorld [])))) = []"
  by (simp add: messenger_defs)

end
